theory Spec2Isabelle
  imports Main "HOL-Library.Sublist"
begin

section \<open>Errors\<close>

text \<open>
  Go's \<^verbatim>\<open>error\<close> values, as far as \<^verbatim>\<open>pkg/common/args.go\<close> meets them: an error made
  from a message (\<^verbatim>\<open>fmt.Errorf\<close>, \<^verbatim>\<open>errors.New\<close>) and the \<^verbatim>\<open>*fs.PathError\<close> of a file
  operation (operation, path, cause). The value \<^verbatim>\<open>nil\<close> of an error variable is \<open>None\<close>
  of \<open>error option\<close>.
\<close>

datatype errno = ENOENT | ENOTDIR | EACCES

datatype error =
    ErrorString string
  | PathError string string errno

section \<open>The configuration record\<close>

text \<open>\<^verbatim>\<open>type ArgConfig struct\<close>, lines 29 to 56. Go's \<^verbatim>\<open>int\<close> is modelled by \<open>int\<close>: the
  code stores and prints the two numbers and never computes with them.\<close>

record ArgConfig =
  Focus :: string
  Skip :: string
  ConformanceImage :: string
  BusyboxImage :: string
  Kubeconfig :: string
  Parallel :: int
  Verbosity :: int
  OutputDir :: string

text \<open>\<^verbatim>\<open>var cfg ArgConfig\<close> (line 59): every field has the zero value of its type.\<close>

definition zero_ArgConfig :: ArgConfig where
  "zero_ArgConfig =
     \<lparr>Focus = [], Skip = [], ConformanceImage = [], BusyboxImage = [], Kubeconfig = [],
      Parallel = 0, Verbosity = 0, OutputDir = []\<rparr>"

section \<open>The standard library's flag package\<close>

text \<open>
  \<^verbatim>\<open>InitArgs\<close> registers eight flags on the process-wide flag set \<^verbatim>\<open>flag.CommandLine\<close> and
  calls \<^verbatim>\<open>flag.Parse()\<close>. The package is modelled after its documented behaviour:
  \<^item> a \<open>Flag\<close> has a name, a usage text and a value whose method \<^verbatim>\<open>Set\<close> stores a parsed
    text through the pointer given at registration. The pointer \<^verbatim>\<open>&cfg.Focus\<close> is modelled
    by the function that stores into that field of the variable \<^verbatim>\<open>cfg\<close>;
  \<^item> a \<open>FlagSet\<close> has the registered flags (\<^verbatim>\<open>formal\<close>), the flags set while parsing
    (\<^verbatim>\<open>actual\<close>, what \<^verbatim>\<open>flag.Visit\<close> enumerates) and the arguments still to be read
    (\<^verbatim>\<open>args\<close>);
  \<^item> the error handling of \<^verbatim>\<open>flag.CommandLine\<close> is \<^verbatim>\<open>ExitOnError\<close>: a failure of parsing
    ends the process, with status 0 after \<^verbatim>\<open>-h\<close> or \<^verbatim>\<open>-help\<close> and status 2 otherwise.
  The state the package works on is the pair of the variable \<^verbatim>\<open>cfg\<close> and the flag set.
  The flag set is fresh when \<^verbatim>\<open>InitArgs\<close> runs; the panic of \<^verbatim>\<open>flag.Var\<close> on a name
  registered twice cannot occur for the eight distinct names and is not modelled, and
  the usage message written to standard error on a failure is left out.
\<close>

datatype flag_error =
    ErrHelp
  | BadSyntax string
  | NotDefined string
  | NeedsArgument string
  | InvalidValue string string error

record Flag =
  Name :: string
  Usage :: string
  Value_Set :: "string \<Rightarrow> ArgConfig \<Rightarrow> error + ArgConfig"

record FlagSet =
  formal :: "string \<Rightarrow> Flag option"
  actual :: "string \<Rightarrow> Flag option"
  args :: "string list"

type_synonym state = "ArgConfig \<times> FlagSet"

definition CommandLine :: FlagSet where
  "CommandLine = \<lparr>formal = Map.empty, actual = Map.empty, args = []\<rparr>"

text \<open>\<^verbatim>\<open>stringValue.Set\<close> stores the text as it is and never fails; \<^verbatim>\<open>intValue.Set\<close> stores
  what \<^verbatim>\<open>strconv.ParseInt(s, 0, strconv.IntSize)\<close> returns and passes its error on. The
  integer parser of the library is a parameter of the model.\<close>

definition stringValue_Set ::
  "(string \<Rightarrow> ArgConfig \<Rightarrow> ArgConfig) \<Rightarrow> string \<Rightarrow> ArgConfig \<Rightarrow> error + ArgConfig" where
  "stringValue_Set p val c = Inr (p val c)"

definition intValue_Set ::
  "(string \<Rightarrow> error + int) \<Rightarrow> (int \<Rightarrow> ArgConfig \<Rightarrow> ArgConfig) \<Rightarrow> string \<Rightarrow> ArgConfig
     \<Rightarrow> error + ArgConfig" where
  "intValue_Set parseInt p s c =
     (case parseInt s of Inl err \<Rightarrow> Inl err | Inr v \<Rightarrow> Inr (p v c))"

definition flag_Var ::
  "(string \<Rightarrow> ArgConfig \<Rightarrow> error + ArgConfig) \<Rightarrow> string \<Rightarrow> string \<Rightarrow> FlagSet \<Rightarrow> FlagSet" where
  "flag_Var set_value name usage f =
     f\<lparr>formal := fun_upd (formal f) name
          (Some \<lparr>Name = name, Usage = usage, Value_Set = set_value\<rparr>)\<rparr>"

text \<open>\<^verbatim>\<open>flag.StringVar(p, name, value, usage)\<close> and \<^verbatim>\<open>flag.IntVar\<close>: the default is stored
  through the pointer at once, and the flag is registered.\<close>

definition flag_StringVar ::
  "(string \<Rightarrow> ArgConfig \<Rightarrow> ArgConfig) \<Rightarrow> string \<Rightarrow> string \<Rightarrow> string \<Rightarrow> state \<Rightarrow> state" where
  "flag_StringVar p name val usage st =
     (p val (fst st), flag_Var (stringValue_Set p) name usage (snd st))"

definition flag_IntVar ::
  "(string \<Rightarrow> error + int) \<Rightarrow> (int \<Rightarrow> ArgConfig \<Rightarrow> ArgConfig) \<Rightarrow> string \<Rightarrow> int \<Rightarrow> string
     \<Rightarrow> state \<Rightarrow> state" where
  "flag_IntVar parseInt p name val usage st =
     (p val (fst st), flag_Var (intValue_Set parseInt p) name usage (snd st))"

text \<open>The search for \<^verbatim>\<open>=\<close> in a flag's text, from its second character on (\<^verbatim>\<open>-name=value\<close>):
  the name, whether a value is attached, and the value.\<close>

definition split_value :: "string \<Rightarrow> string \<times> bool \<times> string" where
  "split_value name =
     (let rest = dropWhile (\<lambda>c. c \<noteq> CHR ''='') (tl name)
      in if rest = [] then (name, False, [])
         else (hd name # takeWhile (\<lambda>c. c \<noteq> CHR ''='') (tl name), True, tl rest))"

text \<open>The second half of \<^verbatim>\<open>FlagSet.parseOne\<close>: the flag is looked up, takes the next
  argument as its value when none is attached (none of the eight flags is boolean), and
  is set. The result is \<^verbatim>\<open>(seen, err)\<close> and the new state.\<close>

definition setFlag ::
  "ArgConfig \<Rightarrow> FlagSet \<Rightarrow> string \<Rightarrow> bool \<Rightarrow> string \<Rightarrow> (bool \<times> flag_error option) \<times> state" where
  "setFlag c f name hasValue val =
     (case formal f name of
        None \<Rightarrow>
          if name = ''help'' \<or> name = ''h''
          then ((False, Some ErrHelp), (c, f))
          else ((False, Some (NotDefined name)), (c, f))
      | Some flag \<Rightarrow>
          (case (if hasValue then Some (val, f)
                 else (case args f of
                         [] \<Rightarrow> None
                       | v # rest \<Rightarrow> Some (v, f\<lparr>args := rest\<rparr>))) of
             None \<Rightarrow> ((False, Some (NeedsArgument name)), (c, f))
           | Some (v, f') \<Rightarrow>
               (case Value_Set flag v c of
                  Inl err \<Rightarrow> ((False, Some (InvalidValue v name err)), (c, f'))
                | Inr c' \<Rightarrow>
                    ((True, None), (c', f'\<lparr>actual := fun_upd (actual f') name (Some flag)\<rparr>)))))"

text \<open>\<^verbatim>\<open>FlagSet.parseOne\<close>: an argument that is not a flag (shorter than two characters, or
  not starting with \<^verbatim>\<open>-\<close>) ends the flags; so does \<^verbatim>\<open>--\<close>, which is consumed; one or two
  leading minus signs are dropped from a flag.\<close>

definition parseOne :: "state \<Rightarrow> (bool \<times> flag_error option) \<times> state" where
  "parseOne st =
     (case args (snd st) of
        [] \<Rightarrow> ((False, None), st)
      | s # rest \<Rightarrow>
          if length s < 2 \<or> hd s \<noteq> CHR ''-'' then ((False, None), st)
          else if s = ''--'' then ((False, None), (fst st, (snd st)\<lparr>args := rest\<rparr>))
          else
            let name = drop (if s ! 1 = CHR ''-'' then 2 else 1) s in
            if length name = 0 \<or> hd name = CHR ''-'' \<or> hd name = CHR ''=''
            then ((False, Some (BadSyntax s)), st)
            else setFlag (fst st) ((snd st)\<lparr>args := rest\<rparr>)
                   (fst (split_value name))
                   (fst (snd (split_value name)))
                   (snd (snd (split_value name))))"

text \<open>The loop of \<^verbatim>\<open>FlagSet.Parse\<close> under \<^verbatim>\<open>ExitOnError\<close>: \<open>Inl\<close> is the exit status of
  the process, \<open>Inr\<close> the state when parsing returns.\<close>

function parse_loop :: "state \<Rightarrow> int + state" where
  "parse_loop st =
     (if fst (fst (parseOne st)) then parse_loop (snd (parseOne st))
      else case snd (fst (parseOne st)) of
             None \<Rightarrow> Inr (snd (parseOne st))
           | Some ErrHelp \<Rightarrow> Inl 0
           | Some _ \<Rightarrow> Inl 2)"
  by pat_completeness auto

lemma setFlag_seen_args:
  "fst (fst (setFlag c f name hasValue val)) \<Longrightarrow>
   length (args (snd (snd (setFlag c f name hasValue val)))) \<le> length (args f)"
  unfolding setFlag_def
  by (cases "formal f name"; cases hasValue; cases "args f")
     (auto split: sum.splits)

lemma parseOne_seen_eq:
  assumes "fst (fst (parseOne st))"
  obtains s rest name where
    "args (snd st) = s # rest"
    "name = drop (if s ! 1 = CHR ''-'' then 2 else 1) s"
    "parseOne st =
       setFlag (fst st) ((snd st)\<lparr>args := rest\<rparr>)
         (fst (split_value name)) (fst (snd (split_value name))) (snd (snd (split_value name)))"
proof (cases "args (snd st)")
  case Nil
  with assms show ?thesis by (simp add: parseOne_def)
next
  case (Cons s rest)
  with assms have
    "parseOne st =
       setFlag (fst st) ((snd st)\<lparr>args := rest\<rparr>)
         (fst (split_value (drop (if s ! 1 = CHR ''-'' then 2 else 1) s)))
         (fst (snd (split_value (drop (if s ! 1 = CHR ''-'' then 2 else 1) s))))
         (snd (snd (split_value (drop (if s ! 1 = CHR ''-'' then 2 else 1) s))))"
    by (simp add: parseOne_def Let_def split: if_splits)
  with Cons that show ?thesis by blast
qed

lemma parseOne_seen_shorter:
  assumes "fst (fst (parseOne st))"
  shows "length (args (snd (snd (parseOne st)))) < length (args (snd st))"
proof -
  from assms obtain s rest name where
    a: "args (snd st) = s # rest" and
    eq: "parseOne st =
       setFlag (fst st) ((snd st)\<lparr>args := rest\<rparr>)
         (fst (split_value name)) (fst (snd (split_value name))) (snd (snd (split_value name)))"
    by (rule parseOne_seen_eq)
  from assms eq have "length (args (snd (snd (parseOne st)))) \<le> length rest"
    using setFlag_seen_args [of "fst st" "(snd st)\<lparr>args := rest\<rparr>"] by simp
  with a show ?thesis by simp
qed

termination parse_loop
  by (relation "measure (\<lambda>st. length (args (snd st)))") (auto simp: parseOne_seen_shorter)

declare parse_loop.simps [simp del]

text \<open>\<^verbatim>\<open>FlagSet.Parse(arguments)\<close> and \<^verbatim>\<open>flag.Parse()\<close>, which parses \<^verbatim>\<open>os.Args[1:]\<close>, the
  command line after the program's name, into \<^verbatim>\<open>flag.CommandLine\<close>.\<close>

definition flag_Parse :: "state \<Rightarrow> string list \<Rightarrow> int + state" where
  "flag_Parse st arguments = parse_loop (fst st, (snd st)\<lparr>args := arguments\<rparr>)"

section \<open>InitArgs\<close>

text \<open>
  What \<^verbatim>\<open>InitArgs\<close> reads from outside the file: the two image constants of the package
  (\<^verbatim>\<open>containerImage\<close>, \<^verbatim>\<open>busyboxImage\<close>, declared in another file), the integer parser of
  the library, and the result of \<^verbatim>\<open>os.Getwd()\<close>.
\<close>

record env =
  containerImage :: string
  busyboxImage :: string
  strconv_ParseInt :: "string \<Rightarrow> error + int"
  os_Getwd :: "error + string"

text \<open>The outcome of \<^verbatim>\<open>InitArgs\<close>: it returns \<^verbatim>\<open>(*ArgConfig, error)\<close>, each of them possibly
  \<^verbatim>\<open>nil\<close>, or the process ends inside \<^verbatim>\<open>flag.Parse()\<close> with an exit status.\<close>

datatype outcome =
    Return "ArgConfig option" "error option"
  | Exit int

text \<open>Lines 59 to 75: the variable \<^verbatim>\<open>cfg\<close> and the eight registrations, in the order of
  the source.\<close>

definition declare_flags :: "env \<Rightarrow> string \<Rightarrow> state" where
  "declare_flags w outputDir =
     (let st = (zero_ArgConfig, CommandLine);
          st = flag_StringVar (\<lambda>v c. c\<lparr>Focus := v\<rparr>) ''focus'' []
                 ''focus runs a specific e2e test. e.g. - sig-auth. allows regular expressions.'' st;
          st = flag_StringVar (\<lambda>v c. c\<lparr>Skip := v\<rparr>) ''skip'' []
                 ''skip specific tests. allows regular expressions.'' st;
          st = flag_StringVar (\<lambda>v c. c\<lparr>ConformanceImage := v\<rparr>) ''conformance-image''
                 (containerImage w)
                 ''image let's you select your conformance container image of your choice.'' st;
          st = flag_StringVar (\<lambda>v c. c\<lparr>BusyboxImage := v\<rparr>) ''busybox-image''
                 (busyboxImage w)
                 ''image let's you select an alternate busybox container image.'' st;
          st = flag_StringVar (\<lambda>v c. c\<lparr>Kubeconfig := v\<rparr>) ''kubeconfig'' []
                 ''path to the kubeconfig file.'' st;
          st = flag_IntVar (strconv_ParseInt w) (\<lambda>v c. c\<lparr>Parallel := v\<rparr>) ''parallel'' 1
                 ''number of parallel threads in test framework.'' st;
          st = flag_IntVar (strconv_ParseInt w) (\<lambda>v c. c\<lparr>Verbosity := v\<rparr>) ''verbosity'' 4
                 ''verbosity of test framework.'' st;
          st = flag_StringVar (\<lambda>v c. c\<lparr>OutputDir := v\<rparr>) ''output-dir'' outputDir
                 ''directory for logs.'' st
      in st)"

definition missing_focus :: error where
  "missing_focus =
     ErrorString ''missing --focus argument (use '[Conformance]' to run all conformance tests)''"

definition InitArgs :: "env \<Rightarrow> string list \<Rightarrow> outcome" where
  "InitArgs w arguments =
     (case os_Getwd w of
        Inl err \<Rightarrow> Return None (Some err)
      | Inr outputDir \<Rightarrow>
          (case flag_Parse (declare_flags w outputDir) arguments of
             Inl status \<Rightarrow> Exit status
           | Inr st \<Rightarrow>
               if Focus (fst st) = [] then Return None (Some missing_focus)
               else Return (Some (fst st)) None))"

text \<open>An option is supplied by the arguments when parsing them has set its flag: the
  flag is in \<^verbatim>\<open>actual\<close> when \<^verbatim>\<open>flag.Parse()\<close> returns.\<close>

definition supplied :: "env \<Rightarrow> string list \<Rightarrow> string \<Rightarrow> bool" where
  "supplied w arguments name =
     (case os_Getwd w of
        Inl err \<Rightarrow> False
      | Inr outputDir \<Rightarrow>
          (case flag_Parse (declare_flags w outputDir) arguments of
             Inl status \<Rightarrow> False
           | Inr st \<Rightarrow> actual (snd st) name \<noteq> None))"

text \<open>An argument names an option when it is the option's name after one or two minus
  signs, alone or followed by \<^verbatim>\<open>=\<close> and a value.\<close>

definition names_flag :: "string \<Rightarrow> string \<Rightarrow> bool" where
  "names_flag a n =
     (a = ''-'' @ n \<or> a = ''--'' @ n \<or> prefix (''-'' @ n @ ''='') a \<or> prefix (''--'' @ n @ ''='') a)"

text \<open>A component \<open>get\<close> of the variable \<^verbatim>\<open>cfg\<close> is stored to by no registered flag
  other than \<open>name\<close>.\<close>

definition others_keep :: "(string \<Rightarrow> Flag option) \<Rightarrow> string \<Rightarrow> (ArgConfig \<Rightarrow> 'a) \<Rightarrow> bool" where
  "others_keep fm name get =
     (\<forall>n fl v c c'. fm n = Some fl \<longrightarrow> n \<noteq> name \<longrightarrow> Value_Set fl v c = Inr c' \<longrightarrow> get c' = get c)"

text \<open>The setting of the flag \<open>name\<close> stores to the component \<open>get\<close> a value that is in
  the relation \<open>R\<close> to the text given.\<close>

definition stores ::
  "(string \<Rightarrow> Flag option) \<Rightarrow> string \<Rightarrow> (ArgConfig \<Rightarrow> 'a) \<Rightarrow> (string \<Rightarrow> 'a \<Rightarrow> bool) \<Rightarrow> bool" where
  "stores fm name get R =
     (\<forall>fl v c c'. fm name = Some fl \<longrightarrow> Value_Set fl v c = Inr c' \<longrightarrow> R v (get c'))"

text \<open>The options and values that an argument list gives, in the order in which
  \<^verbatim>\<open>flag.Parse()\<close> reads them: \<^verbatim>\<open>-name=value\<close> gives the attached value, \<^verbatim>\<open>-name\<close> gives the
  next argument, and reading ends at the first argument that is not a flag. The value
  given last for an option \<open>n\<close> is \<open>map_of (rev (tokens arguments)) n\<close>.\<close>

fun tokens :: "string list \<Rightarrow> (string \<times> string) list" where
  "tokens [] = []"
| "tokens (s # rest) =
     (if length s < 2 \<or> hd s \<noteq> CHR ''-'' \<or> s = ''--'' then []
      else
        let name = drop (if s ! 1 = CHR ''-'' then 2 else 1) s in
        if length name = 0 \<or> hd name = CHR ''-'' \<or> hd name = CHR ''='' then []
        else if fst (snd (split_value name))
        then (fst (split_value name), snd (snd (split_value name))) # tokens rest
        else (case rest of
                [] \<Rightarrow> []
              | v # rest' \<Rightarrow> (fst (split_value name), v) # tokens rest'))"

declare tokens.simps(2) [simp del]

subsection \<open>An integer parser for concrete runs\<close>

text \<open>
  The theorems on \<^verbatim>\<open>InitArgs\<close> hold for every integer parser. Concrete runs use this one:
  an optional sign and decimal digits, without a leading zero unless the text is the
  single digit 0, in the range of 64 bits. On these texts it returns what
  \<^verbatim>\<open>strconv.ParseInt(s, 0, 64)\<close> returns; Go's other literals (the prefixes \<^verbatim>\<open>0x\<close>,
  \<^verbatim>\<open>0o\<close>, \<^verbatim>\<open>0b\<close>, a leading zero for octal, underscores) are not covered by it and are
  rejected.
\<close>

fun decimal_digits :: "string \<Rightarrow> int \<Rightarrow> int option" where
  "decimal_digits [] n = Some n"
| "decimal_digits (c # cs) n =
     (if 48 \<le> (of_char c :: int) \<and> (of_char c :: int) \<le> 57
      then decimal_digits cs (10 * n + (of_char c - 48))
      else None)"

definition decimal_ParseInt :: "string \<Rightarrow> error + int" where
  "decimal_ParseInt s =
     (let neg = (s \<noteq> [] \<and> hd s = CHR ''-'');
          ds = (if s \<noteq> [] \<and> (hd s = CHR ''-'' \<or> hd s = CHR ''+'') then tl s else s)
      in if ds = [] \<or> (hd ds = CHR ''0'' \<and> 1 < length ds) then Inl (ErrorString ''parse error'')
         else
           case decimal_digits ds 0 of
             None \<Rightarrow> Inl (ErrorString ''parse error'')
           | Some n \<Rightarrow>
               if (if neg then 9223372036854775808 < n else 9223372036854775808 \<le> n)
               then Inl (ErrorString ''value out of range'')
               else Inr (if neg then - n else n))"

section \<open>The files of the operating system\<close>

text \<open>
  \<^verbatim>\<open>ValidateArgs\<close> calls \<^verbatim>\<open>os.Stat\<close>, \<^verbatim>\<open>os.IsNotExist\<close> and \<^verbatim>\<open>os.MkdirAll\<close>. The file
  system is modelled as a tree without links: an entry for each absolute path (a list
  of names from the root, which is always a directory), the directories that may not be
  searched, the directories in which nothing may be created, and the working directory
  of the process. A path is resolved name by name; \<^verbatim>\<open>.\<close> stays, \<^verbatim>\<open>..\<close> goes to the
  parent, and every directory on the way has to exist and to be searchable.
\<close>

datatype node = Dir | File

type_synonym path = "string list"

record filesystem =
  entries :: "path \<Rightarrow> node option"
  nosearch :: "path \<Rightarrow> bool"
  readonly :: "path \<Rightarrow> bool"
  cwd :: path

definition lookup :: "filesystem \<Rightarrow> path \<Rightarrow> node option" where
  "lookup fs p = (if p = [] then Some Dir else entries fs p)"

text \<open>The elements of a path between its separators; the names to walk are the
  non-empty ones, and a trailing separator asks for a directory, as a final \<^verbatim>\<open>.\<close> does.\<close>

fun elements :: "string \<Rightarrow> string list" where
  "elements [] = [[]]"
| "elements (c # cs) =
     (if c = CHR ''/'' then [] # elements cs
      else (c # hd (elements cs)) # tl (elements cs))"

definition segments :: "string \<Rightarrow> string list" where
  "segments name =
     filter (\<lambda>e. e \<noteq> []) (elements name) @
     (if name \<noteq> [] \<and> last name = CHR ''/'' then [''.''] else [])"

definition start :: "filesystem \<Rightarrow> string \<Rightarrow> path" where
  "start fs name = (if name \<noteq> [] \<and> hd name = CHR ''/'' then [] else cwd fs)"

definition step :: "path \<Rightarrow> string \<Rightarrow> path" where
  "step d s = (if s = ''.'' then d else if s = ''..'' then butlast d else d @ [s])"

fun walk :: "filesystem \<Rightarrow> path \<Rightarrow> string list \<Rightarrow> errno + path" where
  "walk fs d [] = Inr d"
| "walk fs d (s # ss) =
     (case lookup fs d of
        None \<Rightarrow> Inl ENOENT
      | Some File \<Rightarrow> Inl ENOTDIR
      | Some Dir \<Rightarrow> if nosearch fs d then Inl EACCES else walk fs (step d s) ss)"

text \<open>\<^verbatim>\<open>os.Stat(name)\<close>: the kind of the file, or a \<^verbatim>\<open>*PathError\<close>. The empty path names no
  file.\<close>

definition os_Stat :: "filesystem \<Rightarrow> string \<Rightarrow> error + node" where
  "os_Stat fs name =
     (if name = [] then Inl (PathError ''stat'' name ENOENT)
      else
        case walk fs (start fs name) (segments name) of
          Inl e \<Rightarrow> Inl (PathError ''stat'' name e)
        | Inr p \<Rightarrow>
            (case lookup fs p of
               None \<Rightarrow> Inl (PathError ''stat'' name ENOENT)
             | Some n \<Rightarrow> Inr n))"

text \<open>\<^verbatim>\<open>os.IsNotExist(err)\<close>: the error reports that a file or directory does not exist.
  It is false of \<^verbatim>\<open>nil\<close>.\<close>

definition os_IsNotExist :: "error option \<Rightarrow> bool" where
  "os_IsNotExist err =
     (case err of
        Some (PathError op name ENOENT) \<Rightarrow> True
      | _ \<Rightarrow> False)"

text \<open>The owner's bits of a permission mode: 0100 is search, 0200 is write.\<close>

definition owner_x :: "nat \<Rightarrow> bool" where
  "owner_x perm = ((perm div 64) mod 2 = 1)"

definition owner_w :: "nat \<Rightarrow> bool" where
  "owner_w perm = ((perm div 128) mod 2 = 1)"

text \<open>Making sure that \<open>d\<close> is a directory: it is one already, or it is created in its
  parent with the given mode.\<close>

definition ensure_dir :: "filesystem \<Rightarrow> path \<Rightarrow> nat \<Rightarrow> errno option \<times> filesystem" where
  "ensure_dir fs d perm =
     (case lookup fs d of
        Some Dir \<Rightarrow> (None, fs)
      | Some File \<Rightarrow> (Some ENOTDIR, fs)
      | None \<Rightarrow>
          (case lookup fs (butlast d) of
             None \<Rightarrow> (Some ENOENT, fs)
           | Some File \<Rightarrow> (Some ENOTDIR, fs)
           | Some Dir \<Rightarrow>
               if readonly fs (butlast d) then (Some EACCES, fs)
               else (None, fs\<lparr>entries := fun_upd (entries fs) d (Some Dir),
                               nosearch := fun_upd (nosearch fs) d (\<not> owner_x perm),
                               readonly := fun_upd (readonly fs) d (\<not> owner_w perm)\<rparr>)))"

text \<open>\<^verbatim>\<open>os.MkdirAll(path, perm)\<close> creates the directory along with any necessary parents and
  returns \<^verbatim>\<open>nil\<close>, or else returns an error; a directory that exists is left as it is.
  The directories created before a failure stay. The error of a failure is modelled by
  the operation and the whole path with the cause met on the way; the library names
  the component at which it failed, and nothing below depends on the content of that
  error.\<close>

fun mkdir_all :: "filesystem \<Rightarrow> path \<Rightarrow> string list \<Rightarrow> nat \<Rightarrow> errno option \<times> filesystem" where
  "mkdir_all fs d [] perm = ensure_dir fs d perm"
| "mkdir_all fs d (s # ss) perm =
     (let made = ensure_dir fs d perm in
      case fst made of
        Some e \<Rightarrow> made
      | None \<Rightarrow>
          if nosearch (snd made) d then (Some EACCES, snd made)
          else mkdir_all (snd made) (step d s) ss perm)"

definition os_MkdirAll :: "filesystem \<Rightarrow> string \<Rightarrow> nat \<Rightarrow> error option \<times> filesystem" where
  "os_MkdirAll fs name perm =
     (if name = [] then (Some (PathError ''mkdir'' name ENOENT), fs)
      else
        let made = mkdir_all fs (start fs name) (segments name) perm in
        case fst made of
          Some e \<Rightarrow> (Some (PathError ''mkdir'' name e), snd made)
        | None \<Rightarrow> (None, snd made))"

text \<open>Every directory met on the way along the names is there and, when the way goes
  on, searchable.\<close>

fun dirs_along :: "filesystem \<Rightarrow> path \<Rightarrow> string list \<Rightarrow> bool" where
  "dirs_along fs d [] = (lookup fs d = Some Dir)"
| "dirs_along fs d (s # ss) =
     (lookup fs d = Some Dir \<and> \<not> nosearch fs d \<and> dirs_along fs (step d s) ss)"

text \<open>The second file system has every file of the first, with the same kind and the
  same permission to search, and the same working directory.\<close>

definition extends :: "filesystem \<Rightarrow> filesystem \<Rightarrow> bool" where
  "extends fs fs' =
     (cwd fs' = cwd fs \<and>
      (\<forall>p n. lookup fs p = Some n \<longrightarrow> lookup fs' p = Some n \<and> nosearch fs' p = nosearch fs p))"

section \<open>ValidateArgs\<close>

text \<open>
  The cluster's side of \<^verbatim>\<open>ValidateArgs\<close>: \<^verbatim>\<open>version.Info\<close> of the Kubernetes API machinery,
  the client of the package \<^verbatim>\<open>pkg/client\<close> with the result of the call
  \<^verbatim>\<open>client.ClientSet.ServerVersion()\<close>, and the \<^verbatim>\<open>rest.Config\<close> with its host. The pointer
  arguments are modelled by the records they point to.
\<close>

record Info =
  Major :: string
  Minor :: string
  GitVersion :: string
  GitCommit :: string
  GitTreeState :: string
  BuildDate :: string
  GoVersion :: string
  Compiler :: string
  Platform :: string

record ClientSet =
  ServerVersion :: "error + Info"

record Client =
  ClientSet :: ClientSet

record Config =
  Host :: string

text \<open>The standard logger's output is the list of the calls that wrote it, each with
  its format and operands; \<^verbatim>\<open>log.Fatal\<close> and \<^verbatim>\<open>log.Fatalf\<close> write and then end the
  process with status 1.\<close>

datatype arg = Str string | Num int | Err error | Ver Info

datatype entry =
    Printf string "arg list"
  | Fatal "arg list"
  | Fatalf string "arg list"

datatype run =
    Returned "entry list" filesystem
  | Exited int "entry list" filesystem

definition log_Printf :: "string \<Rightarrow> arg list \<Rightarrow> entry list \<Rightarrow> entry list" where
  "log_Printf format v out = out @ [Printf format v]"

definition log_Fatal :: "arg list \<Rightarrow> entry list \<Rightarrow> filesystem \<Rightarrow> run" where
  "log_Fatal v out fs = Exited 1 (out @ [Fatal v]) fs"

definition log_Fatalf :: "string \<Rightarrow> arg list \<Rightarrow> entry list \<Rightarrow> filesystem \<Rightarrow> run" where
  "log_Fatalf format v out fs = Exited 1 (out @ [Fatalf format v]) fs"

text \<open>Lines 86 to 107. The parameter \<^verbatim>\<open>err\<close> is assigned by the first statement, as the
  binding of \<open>err\<close> in the first case does here; \<^verbatim>\<open>0755\<close> is octal.\<close>

definition ValidateArgs :: "error option \<Rightarrow> Client \<Rightarrow> Config \<Rightarrow> ArgConfig \<Rightarrow> filesystem \<Rightarrow> run" where
  "ValidateArgs err client config cfg fs =
     (case ServerVersion (ClientSet client) of
        Inl err \<Rightarrow> log_Fatal [Str ''Error fetching server version: '', Err err] [] fs
      | Inr serverVersion \<Rightarrow>
          let out = log_Printf ''API endpoint : %s'' [Str (Host config)] [];
              out = log_Printf ''Server version : %#v'' [Ver serverVersion] out;
              out = log_Printf (''Running tests : '%s'' @ [CHR 0x27]) [Str (Focus cfg)] out;
              out = (if Skip cfg \<noteq> []
                     then log_Printf (''Skipping tests : '%s'' @ [CHR 0x27]) [Str (Skip cfg)] out
                     else out);
              out = log_Printf (''Using conformance image : '%s'' @ [CHR 0x27])
                      [Str (ConformanceImage cfg)] out;
              out = log_Printf (''Using busybox image : '%s'' @ [CHR 0x27])
                      [Str (BusyboxImage cfg)] out;
              out = log_Printf
                      (''Test framework will start '%d' threads and use verbosity '%d'' @ [CHR 0x27])
                      [Num (Parallel cfg), Num (Verbosity cfg)] out
          in
          if os_IsNotExist (case os_Stat fs (OutputDir cfg) of Inl err \<Rightarrow> Some err | Inr info \<Rightarrow> None)
          then
            let made = os_MkdirAll fs (OutputDir cfg) (7 * 64 + 5 * 8 + 5) in
            (case fst made of
               Some err \<Rightarrow>
                 log_Fatalf ''Error creating output directory [%s] : %v''
                   [Str (OutputDir cfg), Err err] out (snd made)
             | None \<Rightarrow> Returned out (snd made))
          else Returned out fs)"

fun log_of :: "run \<Rightarrow> entry list" where
  "log_of (Returned out fs) = out"
| "log_of (Exited status out fs) = out"

fun files_of :: "run \<Rightarrow> filesystem" where
  "files_of (Returned out fs) = fs"
| "files_of (Exited status out fs) = fs"

text \<open>The informational lines of a run whose version query succeeds, as the
  specification lists them: the API endpoint, the server version, the focus expression,
  the skip expression when it is not empty, the two images, and the line with
  parallelism and verbosity.\<close>

definition banner :: "Config \<Rightarrow> Info \<Rightarrow> ArgConfig \<Rightarrow> entry list" where
  "banner config v cfg =
     [Printf ''API endpoint : %s'' [Str (Host config)],
      Printf ''Server version : %#v'' [Ver v],
      Printf (''Running tests : '%s'' @ [CHR 0x27]) [Str (Focus cfg)]] @
     (if Skip cfg = [] then []
      else [Printf (''Skipping tests : '%s'' @ [CHR 0x27]) [Str (Skip cfg)]]) @
     [Printf (''Using conformance image : '%s'' @ [CHR 0x27]) [Str (ConformanceImage cfg)],
      Printf (''Using busybox image : '%s'' @ [CHR 0x27]) [Str (BusyboxImage cfg)],
      Printf (''Test framework will start '%d' threads and use verbosity '%d'' @ [CHR 0x27])
        [Num (Parallel cfg), Num (Verbosity cfg)]]"

text \<open>The entries written by the call that reports the tests to skip.\<close>

definition skipping :: "entry \<Rightarrow> bool" where
  "skipping e =
     (case e of
        Printf format v \<Rightarrow> format = ''Skipping tests : '%s'' @ [CHR 0x27]
      | Fatal v \<Rightarrow> False
      | Fatalf format v \<Rightarrow> False)"

section \<open>Concrete runs\<close>

text \<open>An environment for concrete runs of \<^verbatim>\<open>InitArgs\<close>: the conformance image named in the
  comment of the field, a busybox image, the decimal parser, and a working directory.\<close>

definition example_env :: env where
  "example_env =
     \<lparr>containerImage = ''registry.k8s.io/conformance:v1.28.0'',
      busyboxImage = ''registry.k8s.io/e2e-test-images/busybox:1.29-4'',
      strconv_ParseInt = decimal_ParseInt,
      os_Getwd = Inr ''/home/u''\<rparr>"

text \<open>A file system for concrete runs of \<^verbatim>\<open>ValidateArgs\<close>: the working directory
  \<^verbatim>\<open>/home/u\<close> with a regular file \<^verbatim>\<open>notes\<close>, a directory \<^verbatim>\<open>/srv\<close> in which nothing may be
  created, and a directory \<^verbatim>\<open>/priv\<close> that may not be searched; a cluster that reports its
  version, and a configuration.\<close>

definition example_fs :: filesystem where
  "example_fs =
     \<lparr>entries = [[''home''] \<mapsto> Dir, [''home'', ''u''] \<mapsto> Dir,
                 [''home'', ''u'', ''notes''] \<mapsto> File, [''srv''] \<mapsto> Dir,
                 [''priv''] \<mapsto> Dir],
      nosearch = (\<lambda>p. p = [''priv'']),
      readonly = (\<lambda>p. p = [''srv'']),
      cwd = [''home'', ''u'']\<rparr>"

definition example_version :: Info where
  "example_version =
     \<lparr>Major = ''1'', Minor = ''28'', GitVersion = ''v1.28.0'', GitCommit = [],
      GitTreeState = ''clean'', BuildDate = [], GoVersion = ''go1.20.7'', Compiler = ''gc'',
      Platform = ''linux/amd64''\<rparr>"

definition example_client :: Client where
  "example_client = \<lparr>ClientSet = \<lparr>ServerVersion = Inr example_version\<rparr>\<rparr>"

definition example_config :: Config where
  "example_config = \<lparr>Host = ''https://127.0.0.1:6443''\<rparr>"

definition example_cfg :: ArgConfig where
  "example_cfg =
     \<lparr>Focus = ''[Conformance]'', Skip = [],
      ConformanceImage = ''registry.k8s.io/conformance:v1.28.0'',
      BusyboxImage = ''registry.k8s.io/e2e-test-images/busybox:1.29-4'',
      Kubeconfig = [], Parallel = 1, Verbosity = 4, OutputDir = ''/home/u''\<rparr>"

section \<open>Facts on parsing\<close>

text \<open>Parsing never changes the registered flags, never takes a flag out of those that
  are set, and stores only through the flags it sets: a component of \<^verbatim>\<open>cfg\<close> that only
  the flag \<open>name\<close> stores to keeps its value as long as \<open>name\<close> is not set.\<close>

lemma setFlag_formal: "formal (snd (snd (setFlag c f name hasValue val))) = formal f"
  unfolding setFlag_def
  by (cases "formal f name"; cases hasValue; cases "args f") (auto split: sum.splits)

lemma setFlag_actual_mono:
  "actual f n \<noteq> None \<Longrightarrow> actual (snd (snd (setFlag c f name hasValue val))) n \<noteq> None"
  unfolding setFlag_def
  by (cases "formal f name"; cases hasValue; cases "args f") (auto split: sum.splits)

lemma others_keepD:
  "others_keep fm name get \<Longrightarrow> fm n = Some fl \<Longrightarrow> n \<noteq> name \<Longrightarrow> Value_Set fl v c = Inr c'
     \<Longrightarrow> get c' = get c"
  unfolding others_keep_def by blast

lemma setFlag_keeps:
  assumes keep: "others_keep (formal f) name get"
      and unset: "actual (snd (snd (setFlag c f n hasValue val))) name = None"
    shows "get (fst (snd (setFlag c f n hasValue val))) = get c"
proof (cases "formal f n")
  case None
  then show ?thesis by (simp add: setFlag_def)
next
  case (Some flag)
  let ?arg = "if hasValue then Some (val, f)
              else (case args f of [] \<Rightarrow> None | v # rest \<Rightarrow> Some (v, f\<lparr>args := rest\<rparr>))"
  show ?thesis
  proof (cases ?arg)
    case None
    with Some show ?thesis by (simp add: setFlag_def)
  next
    case arg: (Some p)
    obtain v f' where p: "p = (v, f')" by (cases p)
    have fm: "formal f' = formal f"
      using arg p by (auto split: if_splits list.splits)
    show ?thesis
    proof (cases "Value_Set flag v c")
      case (Inl err)
      with Some arg p show ?thesis by (simp add: setFlag_def)
    next
      case (Inr c')
      with Some arg p have eq:
        "setFlag c f n hasValue val =
           ((True, None), (c', f'\<lparr>actual := fun_upd (actual f') n (Some flag)\<rparr>))"
        by (simp add: setFlag_def)
      with unset have "n \<noteq> name" by auto
      from keep Some this Inr have "get c' = get c" by (rule others_keepD)
      with eq show ?thesis by simp
    qed
  qed
qed

lemma parseOne_cases:
  obtains
    (stop) "fst (snd (parseOne st)) = fst st"
           "formal (snd (snd (parseOne st))) = formal (snd st)"
           "actual (snd (snd (parseOne st))) = actual (snd st)"
           "set (args (snd (snd (parseOne st)))) \<subseteq> set (args (snd st))"
  | (flag) s rest where
           "args (snd st) = s # rest"
           "\<not> (length s < 2 \<or> hd s \<noteq> CHR ''-'')"
           "drop (if s ! 1 = CHR ''-'' then 2 else 1) s \<noteq> []"
           "parseOne st =
              setFlag (fst st) ((snd st)\<lparr>args := rest\<rparr>)
                (fst (split_value (drop (if s ! 1 = CHR ''-'' then 2 else 1) s)))
                (fst (snd (split_value (drop (if s ! 1 = CHR ''-'' then 2 else 1) s))))
                (snd (snd (split_value (drop (if s ! 1 = CHR ''-'' then 2 else 1) s))))"
proof (cases "args (snd st)")
  case Nil
  then have "parseOne st = ((False, None), st)" by (simp add: parseOne_def)
  then show ?thesis by (intro stop) simp_all
next
  case (Cons s rest)
  let ?name = "drop (if s ! 1 = CHR ''-'' then 2 else 1) s"
  consider
      (a) "length s < 2 \<or> hd s \<noteq> CHR ''-''"
    | (b) "\<not> (length s < 2 \<or> hd s \<noteq> CHR ''-'')" "s = ''--''"
    | (c) "\<not> (length s < 2 \<or> hd s \<noteq> CHR ''-'')" "s \<noteq> ''--''"
          "length ?name = 0 \<or> hd ?name = CHR ''-'' \<or> hd ?name = CHR ''=''"
    | (d) "\<not> (length s < 2 \<or> hd s \<noteq> CHR ''-'')" "s \<noteq> ''--''"
          "\<not> (length ?name = 0 \<or> hd ?name = CHR ''-'' \<or> hd ?name = CHR ''='')"
    by blast
  then show ?thesis
  proof cases
    case a
    with Cons have "parseOne st = ((False, None), st)" by (simp add: parseOne_def)
    then show ?thesis by (intro stop) simp_all
  next
    case b
    with Cons have "parseOne st = ((False, None), (fst st, (snd st)\<lparr>args := rest\<rparr>))"
      by (simp add: parseOne_def)
    with Cons show ?thesis by (intro stop) auto
  next
    case c
    with Cons have "parseOne st = ((False, Some (BadSyntax s)), st)"
      by (simp add: parseOne_def Let_def)
    then show ?thesis by (intro stop) simp_all
  next
    case d
    with Cons have
      "parseOne st =
         setFlag (fst st) ((snd st)\<lparr>args := rest\<rparr>)
           (fst (split_value ?name)) (fst (snd (split_value ?name)))
           (snd (snd (split_value ?name)))"
      by (simp add: parseOne_def Let_def)
    moreover from d have "?name \<noteq> []" by simp
    ultimately show ?thesis using Cons d(1) by (intro flag)
  qed
qed

lemma parseOne_formal: "formal (snd (snd (parseOne st))) = formal (snd st)"
  by (cases st rule: parseOne_cases) (simp_all add: setFlag_formal)

lemma parseOne_actual_mono:
  "actual (snd st) n \<noteq> None \<Longrightarrow> actual (snd (snd (parseOne st))) n \<noteq> None"
  by (cases st rule: parseOne_cases) (simp_all add: setFlag_actual_mono)

lemma parseOne_keeps:
  assumes keep: "others_keep (formal (snd st)) name get"
      and unset: "actual (snd (snd (parseOne st))) name = None"
    shows "get (fst (snd (parseOne st))) = get (fst st)"
proof (cases st rule: parseOne_cases)
  case stop
  then show ?thesis by simp
next
  case (flag s rest)
  from keep have "others_keep (formal ((snd st)\<lparr>args := rest\<rparr>)) name get" by simp
  from this unset show ?thesis unfolding flag(4) by (rule setFlag_keeps)
qed

lemma parse_loop_step:
  assumes "parse_loop st = Inr st'"
  shows "if fst (fst (parseOne st)) then parse_loop (snd (parseOne st)) = Inr st'
         else st' = snd (parseOne st)"
proof -
  from assms have
    "(if fst (fst (parseOne st)) then parse_loop (snd (parseOne st))
      else case snd (fst (parseOne st)) of
             None \<Rightarrow> Inr (snd (parseOne st))
           | Some ErrHelp \<Rightarrow> Inl 0
           | Some _ \<Rightarrow> Inl 2) = Inr st'"
    by (subst (asm) parse_loop.simps)
  then show ?thesis
    by (cases "fst (fst (parseOne st))"; cases "snd (fst (parseOne st))")
       (auto split: flag_error.splits)
qed

lemma parse_loop_actual_mono:
  "parse_loop st = Inr st' \<Longrightarrow> actual (snd st) n \<noteq> None \<Longrightarrow> actual (snd st') n \<noteq> None"
proof (induction st rule: parse_loop.induct)
  case (1 st)
  note step = parse_loop_step [OF "1.prems"(1)]
  show ?case
  proof (cases "fst (fst (parseOne st))")
    case True
    with step have "parse_loop (snd (parseOne st)) = Inr st'" by simp
    moreover from "1.prems"(2) have "actual (snd (snd (parseOne st))) n \<noteq> None"
      by (rule parseOne_actual_mono)
    ultimately show ?thesis using True by (rule "1.IH" [rotated])
  next
    case False
    with step have "st' = snd (parseOne st)" by simp
    with "1.prems"(2) show ?thesis by (simp add: parseOne_actual_mono)
  qed
qed

lemma parse_loop_formal: "parse_loop st = Inr st' \<Longrightarrow> formal (snd st') = formal (snd st)"
proof (induction st rule: parse_loop.induct)
  case (1 st)
  note step = parse_loop_step [OF "1.prems"(1)]
  show ?case
  proof (cases "fst (fst (parseOne st))")
    case True
    with step have "parse_loop (snd (parseOne st)) = Inr st'" by simp
    with True have "formal (snd st') = formal (snd (snd (parseOne st)))" by (rule "1.IH")
    then show ?thesis by (simp add: parseOne_formal)
  next
    case False
    with step have "st' = snd (parseOne st)" by simp
    then show ?thesis by (simp add: parseOne_formal)
  qed
qed

lemma parse_loop_keeps:
  "others_keep (formal (snd st)) name get \<Longrightarrow> parse_loop st = Inr st' \<Longrightarrow>
   actual (snd st') name = None \<Longrightarrow> get (fst st') = get (fst st)"
proof (induction st rule: parse_loop.induct)
  case (1 st)
  note step = parse_loop_step [OF "1.prems"(2)]
  show ?case
  proof (cases "fst (fst (parseOne st))")
    case True
    with step have run: "parse_loop (snd (parseOne st)) = Inr st'" by simp
    from "1.prems"(1) have keep': "others_keep (formal (snd (snd (parseOne st)))) name get"
      by (simp add: parseOne_formal)
    from True keep' run "1.prems"(3) have "get (fst st') = get (fst (snd (parseOne st)))"
      by (rule "1.IH")
    moreover have "actual (snd (snd (parseOne st))) name = None"
      using parse_loop_actual_mono [OF run, of name] "1.prems"(3) by blast
    with "1.prems"(1) have "get (fst (snd (parseOne st))) = get (fst st)"
      by (rule parseOne_keeps)
    ultimately show ?thesis by simp
  next
    case False
    with step have "st' = snd (parseOne st)" by simp
    with "1.prems"(3) have "actual (snd (snd (parseOne st))) name = None" by simp
    with "1.prems"(1) have "get (fst (snd (parseOne st))) = get (fst st)"
      by (rule parseOne_keeps)
    with \<open>st' = snd (parseOne st)\<close> show ?thesis by simp
  qed
qed


lemmas declare_flags_defs =
  declare_flags_def flag_StringVar_def flag_IntVar_def flag_Var_def CommandLine_def
  zero_ArgConfig_def Let_def

lemma declare_flags_cfg:
  "fst (declare_flags w wd) =
     \<lparr>Focus = [], Skip = [], ConformanceImage = containerImage w,
      BusyboxImage = busyboxImage w, Kubeconfig = [], Parallel = 1, Verbosity = 4,
      OutputDir = wd\<rparr>"
  by (simp add: declare_flags_defs)

lemma declare_flags_formal:
  "formal (snd (declare_flags w wd)) n = Some fl \<Longrightarrow>
     (n = ''focus'' \<and> Value_Set fl = stringValue_Set (\<lambda>v c. c\<lparr>Focus := v\<rparr>)) \<or>
     (n = ''skip'' \<and> Value_Set fl = stringValue_Set (\<lambda>v c. c\<lparr>Skip := v\<rparr>)) \<or>
     (n = ''conformance-image'' \<and>
        Value_Set fl = stringValue_Set (\<lambda>v c. c\<lparr>ConformanceImage := v\<rparr>)) \<or>
     (n = ''busybox-image'' \<and> Value_Set fl = stringValue_Set (\<lambda>v c. c\<lparr>BusyboxImage := v\<rparr>)) \<or>
     (n = ''kubeconfig'' \<and> Value_Set fl = stringValue_Set (\<lambda>v c. c\<lparr>Kubeconfig := v\<rparr>)) \<or>
     (n = ''parallel'' \<and>
        Value_Set fl = intValue_Set (strconv_ParseInt w) (\<lambda>v c. c\<lparr>Parallel := v\<rparr>)) \<or>
     (n = ''verbosity'' \<and>
        Value_Set fl = intValue_Set (strconv_ParseInt w) (\<lambda>v c. c\<lparr>Verbosity := v\<rparr>)) \<or>
     (n = ''output-dir'' \<and> Value_Set fl = stringValue_Set (\<lambda>v c. c\<lparr>OutputDir := v\<rparr>))"
  by (simp add: declare_flags_defs split: if_splits) auto

lemma declare_flags_Set:
  assumes "formal (snd (declare_flags w wd)) n = Some fl" and "Value_Set fl v c = Inr c'"
  shows "(n = ''focus'' \<and> c' = c\<lparr>Focus := v\<rparr>) \<or>
         (n = ''skip'' \<and> c' = c\<lparr>Skip := v\<rparr>) \<or>
         (n = ''conformance-image'' \<and> c' = c\<lparr>ConformanceImage := v\<rparr>) \<or>
         (n = ''busybox-image'' \<and> c' = c\<lparr>BusyboxImage := v\<rparr>) \<or>
         (n = ''kubeconfig'' \<and> c' = c\<lparr>Kubeconfig := v\<rparr>) \<or>
         (n = ''parallel'' \<and> (\<exists>i. strconv_ParseInt w v = Inr i \<and> c' = c\<lparr>Parallel := i\<rparr>)) \<or>
         (n = ''verbosity'' \<and> (\<exists>i. strconv_ParseInt w v = Inr i \<and> c' = c\<lparr>Verbosity := i\<rparr>)) \<or>
         (n = ''output-dir'' \<and> c' = c\<lparr>OutputDir := v\<rparr>)"
  using declare_flags_formal [OF assms(1)] assms(2)
  by (elim disjE conjE) (auto simp: stringValue_Set_def intValue_Set_def split: sum.splits)






lemma keep_Parallel: "others_keep (formal (snd (declare_flags w wd))) ''parallel'' Parallel"
  unfolding others_keep_def
proof (intro allI impI)
  fix n fl v c c'
  assume "formal (snd (declare_flags w wd)) n = Some fl" and "Value_Set fl v c = Inr c'"
  from declare_flags_Set [OF this] show "n \<noteq> ''parallel'' \<Longrightarrow> Parallel c' = Parallel c"
    by auto
qed


lemma keep_OutputDir: "others_keep (formal (snd (declare_flags w wd))) ''output-dir'' OutputDir"
  unfolding others_keep_def
proof (intro allI impI)
  fix n fl v c c'
  assume "formal (snd (declare_flags w wd)) n = Some fl" and "Value_Set fl v c = Inr c'"
  from declare_flags_Set [OF this] show "n \<noteq> ''output-dir'' \<Longrightarrow> OutputDir c' = OutputDir c"
    by auto
qed

lemma flag_Parse_unset:
  assumes "others_keep (formal (snd st0)) name get"
      and "flag_Parse st0 arguments = Inr st"
      and "actual (snd st) name = None"
    shows "get (fst st) = get (fst st0)"
proof -
  from assms(1) have "others_keep (formal (snd (fst st0, (snd st0)\<lparr>args := arguments\<rparr>))) name get"
    by simp
  moreover from assms(2) have "parse_loop (fst st0, (snd st0)\<lparr>args := arguments\<rparr>) = Inr st"
    by (simp add: flag_Parse_def)
  ultimately have "get (fst st) = get (fst (fst st0, (snd st0)\<lparr>args := arguments\<rparr>))"
    using assms(3) by (rule parse_loop_keeps)
  then show ?thesis by simp
qed

lemma InitArgs_Return_Some:
  assumes "InitArgs w arguments = Return (Some cfg) err"
  obtains wd st where "os_Getwd w = Inr wd"
    and "flag_Parse (declare_flags w wd) arguments = Inr st"
    and "cfg = fst st" and "Focus cfg \<noteq> []" and "err = None"
  using assms unfolding InitArgs_def
  by (auto split: sum.splits if_splits)

lemma supplied_iff:
  "os_Getwd w = Inr wd \<Longrightarrow> flag_Parse (declare_flags w wd) arguments = Inr st \<Longrightarrow>
   supplied w arguments name = (actual (snd st) name \<noteq> None)"
  by (simp add: supplied_def)

text \<open>Parsing sets a flag only when it reads an argument that names it: an option that
  no argument names is not supplied.\<close>

lemma split_value_name:
  assumes "name \<noteq> []"
  shows "fst (split_value name) = name \<or> prefix (fst (split_value name) @ ''='') name"
proof (cases "dropWhile (\<lambda>c. c \<noteq> CHR ''='') (tl name) = []")
  case True
  then have "split_value name = (name, False, [])"
    unfolding split_value_def Let_def by (simp only: if_True refl)
  then show ?thesis by simp
next
  case False
  let ?P = "\<lambda>c. c \<noteq> CHR ''=''"
  from False have hd_eq: "hd (dropWhile ?P (tl name)) = CHR ''=''"
    using hd_dropWhile [of ?P "tl name"] by simp
  from False have "split_value name =
      (hd name # takeWhile ?P (tl name), True, tl (dropWhile ?P (tl name)))"
    unfolding split_value_def Let_def by (simp only: if_False refl)
  then have fst_eq: "fst (split_value name) = hd name # takeWhile ?P (tl name)" by simp
  have "name = hd name # tl name" using assms by simp
  also have "tl name = takeWhile ?P (tl name) @ dropWhile ?P (tl name)" by simp
  also have "dropWhile ?P (tl name) = CHR ''='' # tl (dropWhile ?P (tl name))"
    using False hd_eq by (cases "dropWhile ?P (tl name)") simp_all
  finally have "name = (hd name # takeWhile ?P (tl name)) @ ''='' @ tl (dropWhile ?P (tl name))"
    by simp
  then have "prefix ((hd name # takeWhile ?P (tl name)) @ ''='') name"
    by (metis append.assoc prefixI)
  with fst_eq show ?thesis by simp
qed

lemma dashes:
  assumes "\<not> (length s < 2 \<or> hd s \<noteq> CHR ''-'')"
  shows "s = (if s ! 1 = CHR ''-'' then ''--'' else ''-'') @ drop (if s ! 1 = CHR ''-'' then 2 else 1) s"
proof -
  from assms obtain a b r where s: "s = a # b # r" 
    by (cases s; cases "tl s") auto
  with assms show ?thesis by auto
qed

lemma setFlag_actual_new:
  "actual (snd (snd (setFlag c f name hasValue val))) n \<noteq> None \<Longrightarrow>
   actual f n \<noteq> None \<or> n = name"
  unfolding setFlag_def
  by (cases "formal f name"; cases hasValue; cases "args f")
     (auto split: sum.splits if_splits)

lemma setFlag_args_subset:
  "set (args (snd (snd (setFlag c f name hasValue val)))) \<subseteq> set (args f)"
  unfolding setFlag_def
  by (cases "formal f name"; cases hasValue; cases "args f")
     (auto split: sum.splits if_splits)

lemma names_flag_token:
  assumes s: "\<not> (length s < 2 \<or> hd s \<noteq> CHR ''-'')"
      and ne: "drop (if s ! 1 = CHR ''-'' then 2 else 1) s \<noteq> []"
    shows "names_flag s (fst (split_value (drop (if s ! 1 = CHR ''-'' then 2 else 1) s)))"
proof -
  let ?d = "if s ! 1 = CHR ''-'' then ''--'' else ''-''"
  let ?name = "drop (if s ! 1 = CHR ''-'' then 2 else 1) s"
  let ?n = "fst (split_value ?name)"
  from s have eq: "s = ?d @ ?name" by (rule dashes)
  from split_value_name [OF ne] show ?thesis
  proof
    assume "?n = ?name"
    with eq have "s = ?d @ ?n" by simp
    then show ?thesis unfolding names_flag_def by (cases "s ! 1 = CHR ''-''") simp_all
  next
    assume "prefix (?n @ ''='') ?name"
    then have "prefix (?d @ ?n @ ''='') (?d @ ?name)" by simp
    with eq have "prefix (?d @ ?n @ ''='') s" by simp
    then show ?thesis unfolding names_flag_def by (cases "s ! 1 = CHR ''-''") simp_all
  qed
qed

lemma parseOne_actual_new:
  assumes "actual (snd (snd (parseOne st))) n \<noteq> None"
  shows "actual (snd st) n \<noteq> None \<or> (\<exists>a\<in>set (args (snd st)). names_flag a n)"
proof (cases st rule: parseOne_cases)
  case stop
  with assms show ?thesis by simp
next
  case (flag s rest)
  from assms flag(4) have "actual (snd st) n \<noteq> None \<or>
      n = fst (split_value (drop (if s ! 1 = CHR ''-'' then 2 else 1) s))"
    using setFlag_actual_new [of "fst st" "(snd st)\<lparr>args := rest\<rparr>" _ _ _ n] by simp
  moreover from flag(2,3)
  have "names_flag s (fst (split_value (drop (if s ! 1 = CHR ''-'' then 2 else 1) s)))"
    by (rule names_flag_token)
  ultimately show ?thesis using flag(1) by auto
qed

lemma parseOne_args_subset: "set (args (snd (snd (parseOne st)))) \<subseteq> set (args (snd st))"
proof (cases st rule: parseOne_cases)
  case stop
  then show ?thesis by simp
next
  case (flag s rest)
  have "set (args (snd (snd (parseOne st)))) \<subseteq> set (args ((snd st)\<lparr>args := rest\<rparr>))"
    unfolding flag(4) by (rule setFlag_args_subset)
  with flag(1) show ?thesis by auto
qed

lemma parse_loop_actual_new:
  "parse_loop st = Inr st' \<Longrightarrow> actual (snd st') n \<noteq> None \<Longrightarrow>
   actual (snd st) n \<noteq> None \<or> (\<exists>a\<in>set (args (snd st)). names_flag a n)"
proof (induction st rule: parse_loop.induct)
  case (1 st)
  note step = parse_loop_step [OF "1.prems"(1)]
  have one: "actual (snd (snd (parseOne st))) n \<noteq> None \<Longrightarrow> ?case"
    by (rule parseOne_actual_new)
  show ?case
  proof (cases "fst (fst (parseOne st))")
    case True
    with step have "parse_loop (snd (parseOne st)) = Inr st'" by simp
    with True have "actual (snd (snd (parseOne st))) n \<noteq> None \<or>
        (\<exists>a\<in>set (args (snd (snd (parseOne st)))). names_flag a n)"
      using "1.prems"(2) by (rule "1.IH")
    then show ?thesis
    proof
      assume "actual (snd (snd (parseOne st))) n \<noteq> None"
      then show ?thesis by (rule one)
    next
      assume "\<exists>a\<in>set (args (snd (snd (parseOne st)))). names_flag a n"
      with parseOne_args_subset [of st] show ?thesis by blast
    qed
  next
    case False
    with step have "st' = snd (parseOne st)" by simp
    with "1.prems"(2) show ?thesis by (intro one) simp
  qed
qed

lemma supplied_named:
  assumes "supplied w arguments n"
  shows "\<exists>a\<in>set arguments. names_flag a n"
proof -
  from assms obtain wd st where
    p: "flag_Parse (declare_flags w wd) arguments = Inr st" and a: "actual (snd st) n \<noteq> None"
    by (auto simp: supplied_def split: sum.splits)
  let ?st0 = "(fst (declare_flags w wd), (snd (declare_flags w wd))\<lparr>args := arguments\<rparr>)"
  from p have "parse_loop ?st0 = Inr st" by (simp add: flag_Parse_def)
  from parse_loop_actual_new [OF this a]
  have "actual (snd (declare_flags w wd)) n \<noteq> None \<or> (\<exists>a\<in>set arguments. names_flag a n)"
    by simp
  moreover have "actual (snd (declare_flags w wd)) n = None"
    by (simp add: declare_flags_defs)
  ultimately show ?thesis by simp
qed

text \<open>When parsing returns, a component that only the flag \<open>p\<close> stores to has its value
  from before if the arguments give no value for \<open>p\<close>, and otherwise what the flag stores
  for the value given last.\<close>

lemma storesD:
  "stores fm name get R \<Longrightarrow> fm name = Some fl \<Longrightarrow> Value_Set fl v c = Inr c' \<Longrightarrow> R v (get c')"
  unfolding stores_def by blast

lemma setFlag_result:
  "(fst (fst (setFlag c f nm hv val)) \<longrightarrow>
      (\<exists>fl v. formal f nm = Some fl \<and>
              Value_Set fl v c = Inr (fst (snd (setFlag c f nm hv val))) \<and>
              (if hv then v = val \<and> args (snd (snd (setFlag c f nm hv val))) = args f
               else args f = v # args (snd (snd (setFlag c f nm hv val)))))) \<and>
   (\<not> fst (fst (setFlag c f nm hv val)) \<longrightarrow> snd (fst (setFlag c f nm hv val)) \<noteq> None)"
  unfolding setFlag_def
  by (cases "formal f nm"; cases hv; cases "args f") (auto split: sum.splits)

lemma tokens_stop:
  "length s < 2 \<or> hd s \<noteq> CHR ''-'' \<or> s = ''--'' \<Longrightarrow> tokens (s # rest) = []"
  by (subst tokens.simps(2)) (rule if_P)

lemma tokens_flag:
  assumes "\<not> (length s < 2 \<or> hd s \<noteq> CHR ''-'' \<or> s = ''--'')"
      and "\<not> (length (drop (if s ! 1 = CHR ''-'' then 2 else 1) s) = 0 \<or>
              hd (drop (if s ! 1 = CHR ''-'' then 2 else 1) s) = CHR ''-'' \<or>
              hd (drop (if s ! 1 = CHR ''-'' then 2 else 1) s) = CHR ''='')"
    shows "tokens (s # rest) =
      (if fst (snd (split_value (drop (if s ! 1 = CHR ''-'' then 2 else 1) s)))
       then (fst (split_value (drop (if s ! 1 = CHR ''-'' then 2 else 1) s)),
             snd (snd (split_value (drop (if s ! 1 = CHR ''-'' then 2 else 1) s)))) # tokens rest
       else (case rest of
               [] \<Rightarrow> []
             | v # rest' \<Rightarrow>
                 (fst (split_value (drop (if s ! 1 = CHR ''-'' then 2 else 1) s)), v) #
                 tokens rest'))"
  using assms by (subst tokens.simps(2)) (simp only: if_False Let_def)

lemma parseOne_tokens:
  "(fst (fst (parseOne st)) \<longrightarrow>
      (\<exists>nm v fl. tokens (args (snd st)) = (nm, v) # tokens (args (snd (snd (parseOne st)))) \<and>
                 formal (snd st) nm = Some fl \<and>
                 Value_Set fl v (fst st) = Inr (fst (snd (parseOne st))))) \<and>
   (\<not> fst (fst (parseOne st)) \<longrightarrow> snd (fst (parseOne st)) = None \<longrightarrow>
      tokens (args (snd st)) = [] \<and> fst (snd (parseOne st)) = fst st)"
proof (cases "args (snd st)")
  case Nil
  then have "parseOne st = ((False, None), st)" by (simp add: parseOne_def)
  with Nil show ?thesis by simp
next
  case (Cons s rest)
  let ?name = "drop (if s ! 1 = CHR ''-'' then 2 else 1) s"
  let ?nm = "fst (split_value ?name)"
  let ?hv = "fst (snd (split_value ?name))"
  let ?val = "snd (snd (split_value ?name))"
  consider
      (a) "length s < 2 \<or> hd s \<noteq> CHR ''-''"
    | (b) "\<not> (length s < 2 \<or> hd s \<noteq> CHR ''-'')" "s = ''--''"
    | (c) "\<not> (length s < 2 \<or> hd s \<noteq> CHR ''-'')" "s \<noteq> ''--''"
          "length ?name = 0 \<or> hd ?name = CHR ''-'' \<or> hd ?name = CHR ''=''"
    | (d) "\<not> (length s < 2 \<or> hd s \<noteq> CHR ''-'')" "s \<noteq> ''--''"
          "\<not> (length ?name = 0 \<or> hd ?name = CHR ''-'' \<or> hd ?name = CHR ''='')"
    by blast
  then show ?thesis
  proof cases
    case a
    with Cons have "parseOne st = ((False, None), st)" by (simp add: parseOne_def)
    moreover from a have "tokens (s # rest) = []" by (intro tokens_stop) blast
    ultimately show ?thesis using Cons by simp
  next
    case b
    with Cons have "parseOne st = ((False, None), (fst st, (snd st)\<lparr>args := rest\<rparr>))"
      by (simp add: parseOne_def)
    moreover from b have "tokens (s # rest) = []" by (intro tokens_stop) blast
    ultimately show ?thesis using Cons by simp
  next
    case c
    with Cons have "parseOne st = ((False, Some (BadSyntax s)), st)"
      by (simp add: parseOne_def Let_def)
    then show ?thesis by simp
  next
    case d
    let ?f = "(snd st)\<lparr>args := rest\<rparr>"
    let ?r = "setFlag (fst st) ?f ?nm ?hv ?val"
    from d Cons have eq: "parseOne st = ?r" by (simp add: parseOne_def Let_def)
    from d have tok: "tokens (s # rest) =
        (if ?hv then (?nm, ?val) # tokens rest
         else (case rest of [] \<Rightarrow> [] | v # rest' \<Rightarrow> (?nm, v) # tokens rest'))"
      by (intro tokens_flag) blast+
    note res = setFlag_result [of "fst st" ?f ?nm ?hv ?val]
    show ?thesis
    proof (cases "fst (fst ?r)")
      case False
      with res have ne: "snd (fst ?r) \<noteq> None" by blast
      have "\<not> fst (fst (parseOne st))" unfolding eq by (rule False)
      moreover have "snd (fst (parseOne st)) \<noteq> None" unfolding eq by (rule ne)
      ultimately show ?thesis by blast
    next
      case True
      with res obtain fl v where
        fm: "formal ?f ?nm = Some fl" and
        vs: "Value_Set fl v (fst st) = Inr (fst (snd ?r))" and
        ar: "if ?hv then v = ?val \<and> args (snd (snd ?r)) = args ?f
             else args ?f = v # args (snd (snd ?r))"
        by blast
      have t: "tokens (s # rest) = (?nm, v) # tokens (args (snd (snd ?r)))"
      proof (cases ?hv)
        case True
        with ar have "v = ?val" and "args (snd (snd ?r)) = rest" by simp_all
        with tok True show ?thesis by simp
      next
        case False
        with ar have "rest = v # args (snd (snd ?r))" by simp
        with tok False show ?thesis by (cases rest) simp_all
      qed
      have seen: "fst (fst (parseOne st))" unfolding eq by (rule True)
      have t': "tokens (args (snd st)) = (?nm, v) # tokens (args (snd (snd (parseOne st))))"
        unfolding eq Cons by (rule t)
      from fm have f': "formal (snd st) ?nm = Some fl" by simp
      have v': "Value_Set fl v (fst st) = Inr (fst (snd (parseOne st)))"
        unfolding eq by (rule vs)
      from seen t' f' v' show ?thesis by blast
    qed
  qed
qed

lemma parse_loop_stop:
  assumes "parse_loop st = Inr st'" and "\<not> fst (fst (parseOne st))"
  shows "snd (fst (parseOne st)) = None"
proof -
  from assms(1) have
    "(if fst (fst (parseOne st)) then parse_loop (snd (parseOne st))
      else case snd (fst (parseOne st)) of
             None \<Rightarrow> Inr (snd (parseOne st))
           | Some ErrHelp \<Rightarrow> Inl 0
           | Some _ \<Rightarrow> Inl 2) = Inr st'"
    by (subst (asm) parse_loop.simps)
  with assms(2) show ?thesis
    by (cases "snd (fst (parseOne st))") (auto split: flag_error.splits)
qed

lemma map_of_rev_Cons:
  "map_of (rev ((n, v) # ts)) p =
     (case map_of (rev ts) p of None \<Rightarrow> (if n = p then Some v else None) | Some x \<Rightarrow> Some x)"
  by (simp add: map_add_def split: option.splits)

lemma parse_loop_last:
  "others_keep (formal (snd st)) p get \<Longrightarrow> stores (formal (snd st)) p get R \<Longrightarrow>
   parse_loop st = Inr st' \<Longrightarrow>
   (case map_of (rev (tokens (args (snd st)))) p of
      None \<Rightarrow> get (fst st') = get (fst st)
    | Some v \<Rightarrow> R v (get (fst st')))"
proof (induction st rule: parse_loop.induct)
  case (1 st)
  note step = parse_loop_step [OF "1.prems"(3)]
  let ?st1 = "snd (parseOne st)"
  show ?case
  proof (cases "fst (fst (parseOne st))")
    case False
    with step have st': "st' = ?st1" by simp
    from "1.prems"(3) False have "snd (fst (parseOne st)) = None" by (rule parse_loop_stop)
    with False parseOne_tokens [of st]
    have "tokens (args (snd st)) = []" and "fst ?st1 = fst st" by blast+
    with st' show ?thesis by simp
  next
    case True
    with step have run: "parse_loop ?st1 = Inr st'" by simp
    from True parseOne_tokens [of st] obtain nm v fl where
      tok: "tokens (args (snd st)) = (nm, v) # tokens (args (snd ?st1))" and
      fm: "formal (snd st) nm = Some fl" and
      vs: "Value_Set fl v (fst st) = Inr (fst ?st1)"
      by blast
    from "1.prems"(1) have k1: "others_keep (formal (snd ?st1)) p get"
      by (simp add: parseOne_formal)
    from "1.prems"(2) have s1: "stores (formal (snd ?st1)) p get R"
      by (simp add: parseOne_formal)
    from True k1 s1 run have IH:
      "case map_of (rev (tokens (args (snd ?st1)))) p of
         None \<Rightarrow> get (fst st') = get (fst ?st1)
       | Some x \<Rightarrow> R x (get (fst st'))"
      by (rule "1.IH")
    show ?thesis
    proof (cases "map_of (rev (tokens (args (snd ?st1)))) p")
      case (Some x)
      with IH tok show ?thesis by (simp add: map_of_rev_Cons del: map_of.simps rev.simps)
    next
      case None
      with IH have same: "get (fst st') = get (fst ?st1)" by simp
      show ?thesis
      proof (cases "nm = p")
        case True
        from "1.prems"(2) fm [unfolded True] vs have "R v (get (fst ?st1))" by (rule storesD)
        with same None tok True show ?thesis
          by (simp add: map_of_rev_Cons del: map_of.simps rev.simps)
      next
        case False
        from "1.prems"(1) fm False vs have "get (fst ?st1) = get (fst st)" by (rule others_keepD)
        with same None tok False show ?thesis
          by (simp add: map_of_rev_Cons del: map_of.simps rev.simps)
      qed
    qed
  qed
qed

lemma stores_Parallel:
  "stores (formal (snd (declare_flags w wd))) ''parallel'' Parallel
     (\<lambda>v i. strconv_ParseInt w v = Inr i)"
  unfolding stores_def
proof (intro allI impI)
  fix fl v c c'
  assume "formal (snd (declare_flags w wd)) ''parallel'' = Some fl" and "Value_Set fl v c = Inr c'"
  from declare_flags_Set [OF this]
  show "strconv_ParseInt w v = Inr (Parallel c')" by auto
qed

text \<open>The equations that evaluate a concrete run.\<close>

lemmas run_defs =
  InitArgs_def supplied_def example_env_def flag_Parse_def declare_flags_defs
  parse_loop.simps parseOne_def setFlag_def split_value_def stringValue_Set_def
  intValue_Set_def decimal_ParseInt_def missing_focus_def

section \<open>Theorems on InitArgs\<close>







text \<open>
  Claim C3. When the working directory cannot be determined, \<^verbatim>\<open>InitArgs\<close> returns that
  error and no record, whatever the arguments are: no flag has been parsed. When the
  output-dir option is not supplied, the output directory of the record that
  \<^verbatim>\<open>InitArgs\<close> returns is the working directory that \<^verbatim>\<open>os.Getwd()\<close> returned.
\<close>

theorem InitArgs_output_dir:
  "(os_Getwd w = Inl e \<longrightarrow> InitArgs w arguments = Return None (Some e)) \<and>
   (os_Getwd w = Inr wd \<longrightarrow> InitArgs w arguments = Return (Some cfg) err \<longrightarrow>
      \<not> supplied w arguments ''output-dir'' \<longrightarrow> OutputDir cfg = wd)"
proof (intro conjI impI)
  assume "os_Getwd w = Inl e"
  then show "InitArgs w arguments = Return None (Some e)" by (simp add: InitArgs_def)
next
  assume wd: "os_Getwd w = Inr wd"
     and ret: "InitArgs w arguments = Return (Some cfg) err"
     and no: "\<not> supplied w arguments ''output-dir''"
  from ret obtain wd' st where g: "os_Getwd w = Inr wd'"
    and p: "flag_Parse (declare_flags w wd') arguments = Inr st" and c: "cfg = fst st"
    by (rule InitArgs_Return_Some)
  from g wd have [simp]: "wd' = wd" by simp
  from no g p have "actual (snd st) ''output-dir'' = None" by (simp add: supplied_iff)
  with keep_OutputDir p have "OutputDir (fst st) = OutputDir (fst (declare_flags w wd'))"
    by (rule flag_Parse_unset)
  with c show "OutputDir cfg = wd" by (simp add: declare_flags_cfg)
qed

theorem InitArgs_output_dir_witness:
  "InitArgs (example_env\<lparr>os_Getwd := Inl (ErrorString ''getwd: no such file or directory'')\<rparr>)
     [''--no-such-flag''] =
     Return None (Some (ErrorString ''getwd: no such file or directory'')) \<and>
   InitArgs example_env [''-focus'', ''sig-auth'', ''-skip'', ''Serial''] =
     Return (Some \<lparr>Focus = ''sig-auth'', Skip = ''Serial'',
                   ConformanceImage = ''registry.k8s.io/conformance:v1.28.0'',
                   BusyboxImage = ''registry.k8s.io/e2e-test-images/busybox:1.29-4'',
                   Kubeconfig = [], Parallel = 1, Verbosity = 4,
                   OutputDir = ''/home/u''\<rparr>) None \<and>
   OutputDir \<lparr>Focus = ''sig-auth'', Skip = ''Serial'',
                   ConformanceImage = ''registry.k8s.io/conformance:v1.28.0'',
                   BusyboxImage = ''registry.k8s.io/e2e-test-images/busybox:1.29-4'',
                   Kubeconfig = [], Parallel = 1, Verbosity = 4,
                   OutputDir = ''/home/u''\<rparr> = ''/home/u''"
proof -
  let ?bad = "example_env\<lparr>os_Getwd := Inl (ErrorString ''getwd: no such file or directory'')\<rparr>"
  let ?args = "[''-focus'', ''sig-auth'', ''-skip'', ''Serial'']"
  let ?cfg = "\<lparr>Focus = ''sig-auth'', Skip = ''Serial'',
                   ConformanceImage = ''registry.k8s.io/conformance:v1.28.0'',
                   BusyboxImage = ''registry.k8s.io/e2e-test-images/busybox:1.29-4'',
                   Kubeconfig = [], Parallel = 1, Verbosity = 4,
                   OutputDir = ''/home/u''\<rparr>"
  have b: "os_Getwd ?bad = Inl (ErrorString ''getwd: no such file or directory'')" by simp
  have g: "os_Getwd example_env = Inr ''/home/u''" by (simp add: example_env_def)
  have r: "InitArgs example_env ?args = Return (Some ?cfg) None" by (simp add: run_defs)
  have u: "\<not> supplied example_env ?args ''output-dir''" by (simp add: run_defs)
  from InitArgs_output_dir [of ?bad _ "[''--no-such-flag'']"] b
  have "InitArgs ?bad [''--no-such-flag''] =
          Return None (Some (ErrorString ''getwd: no such file or directory''))"
    by blast
  moreover from InitArgs_output_dir [of example_env _ ?args "''/home/u''" ?cfg None] g r u
  have "OutputDir ?cfg = ''/home/u''" by blast
  ultimately show ?thesis using r by simp
qed

text \<open>
  Claim C8, as the code has it. The claim that the parallelism of every record returned
  is at least 1 fails: \<^verbatim>\<open>InitArgs\<close> stores the integer given for the parallel option as it
  is, and \<^verbatim>\<open>--parallel=0\<close> yields a record with parallelism 0.
\<close>

theorem InitArgs_parallel_counterexample:
  "InitArgs example_env [''--focus=[Conformance]'', ''--parallel=0''] =
     Return (Some \<lparr>Focus = ''[Conformance]'', Skip = [],
                   ConformanceImage = ''registry.k8s.io/conformance:v1.28.0'',
                   BusyboxImage = ''registry.k8s.io/e2e-test-images/busybox:1.29-4'',
                   Kubeconfig = [], Parallel = 0, Verbosity = 4,
                   OutputDir = ''/home/u''\<rparr>) None \<and>
   \<not> 1 \<le> Parallel \<lparr>Focus = ''[Conformance]'', Skip = [],
                   ConformanceImage = ''registry.k8s.io/conformance:v1.28.0'',
                   BusyboxImage = ''registry.k8s.io/e2e-test-images/busybox:1.29-4'',
                   Kubeconfig = [], Parallel = 0, Verbosity = 4,
                   OutputDir = ''/home/u''\<rparr>"
  by (simp add: run_defs)

text \<open>
  Claim C8, amended. For every argument set for which \<^verbatim>\<open>InitArgs\<close> returns a
  configuration record, the parallelism of that record is 1 when the arguments give no
  value for the parallel option, and otherwise it is the integer that
  \<^verbatim>\<open>strconv.ParseInt\<close> returns for the value given last for that option: the integer is
  stored as given, with no lower bound, so that the parallelism is at least 1 when the
  option is not supplied and otherwise exactly when the integer given is.
\<close>

theorem InitArgs_parallel_default:
  assumes "InitArgs w arguments = Return (Some cfg) err"
  shows "(\<not> supplied w arguments ''parallel'' \<longrightarrow> Parallel cfg = 1) \<and>
         (case map_of (rev (tokens arguments)) ''parallel'' of
            None \<Rightarrow> Parallel cfg = 1
          | Some v \<Rightarrow> strconv_ParseInt w v = Inr (Parallel cfg))"
proof -
  from assms obtain wd st where g: "os_Getwd w = Inr wd"
    and p: "flag_Parse (declare_flags w wd) arguments = Inr st" and c: "cfg = fst st"
    by (rule InitArgs_Return_Some)
  let ?st0 = "(fst (declare_flags w wd), (snd (declare_flags w wd))\<lparr>args := arguments\<rparr>)"
  have "\<not> supplied w arguments ''parallel'' \<longrightarrow> Parallel cfg = 1"
  proof
    assume "\<not> supplied w arguments ''parallel''"
    with g p have "actual (snd st) ''parallel'' = None" by (simp add: supplied_iff)
    with keep_Parallel p have "Parallel (fst st) = Parallel (fst (declare_flags w wd))"
      by (rule flag_Parse_unset)
    with c show "Parallel cfg = 1" by (simp add: declare_flags_cfg)
  qed
  moreover have
    "case map_of (rev (tokens arguments)) ''parallel'' of
       None \<Rightarrow> Parallel cfg = 1
     | Some v \<Rightarrow> strconv_ParseInt w v = Inr (Parallel cfg)"
  proof -
    have k: "others_keep (formal (snd ?st0)) ''parallel'' Parallel"
      using keep_Parallel [of w wd] by simp
    have s: "stores (formal (snd ?st0)) ''parallel'' Parallel (\<lambda>v i. strconv_ParseInt w v = Inr i)"
      using stores_Parallel [of w wd] by simp
    from p have "parse_loop ?st0 = Inr st" by (simp add: flag_Parse_def)
    with k s have
      "case map_of (rev (tokens (args (snd ?st0)))) ''parallel'' of
         None \<Rightarrow> Parallel (fst st) = Parallel (fst ?st0)
       | Some v \<Rightarrow> strconv_ParseInt w v = Inr (Parallel (fst st))"
      by (rule parse_loop_last)
    with c show ?thesis by (simp add: declare_flags_cfg split: option.splits)
  qed
  ultimately show ?thesis by blast
qed

theorem InitArgs_parallel_default_witness:
  "InitArgs example_env [''--focus'', ''sig-apps'', ''--parallel=3'', ''-parallel'', ''12''] =
     Return (Some \<lparr>Focus = ''sig-apps'', Skip = [],
                   ConformanceImage = ''registry.k8s.io/conformance:v1.28.0'',
                   BusyboxImage = ''registry.k8s.io/e2e-test-images/busybox:1.29-4'',
                   Kubeconfig = [], Parallel = 12, Verbosity = 4,
                   OutputDir = ''/home/u''\<rparr>) None \<and>
   map_of (rev (tokens [''--focus'', ''sig-apps'', ''--parallel=3'', ''-parallel'', ''12'']))
     ''parallel'' = Some ''12'' \<and>
   strconv_ParseInt example_env ''12'' = Inr 12 \<and>
   InitArgs example_env [''--focus'', ''sig-apps'', ''--verbosity=7''] =
     Return (Some \<lparr>Focus = ''sig-apps'', Skip = [],
                   ConformanceImage = ''registry.k8s.io/conformance:v1.28.0'',
                   BusyboxImage = ''registry.k8s.io/e2e-test-images/busybox:1.29-4'',
                   Kubeconfig = [], Parallel = 1, Verbosity = 7,
                   OutputDir = ''/home/u''\<rparr>) None \<and>
   map_of (rev (tokens [''--focus'', ''sig-apps'', ''--verbosity=7''])) ''parallel'' = None"
proof -
  let ?given = "[''--focus'', ''sig-apps'', ''--parallel=3'', ''-parallel'', ''12'']"
  let ?none = "[''--focus'', ''sig-apps'', ''--verbosity=7'']"
  let ?c12 = "\<lparr>Focus = ''sig-apps'', Skip = [],
                   ConformanceImage = ''registry.k8s.io/conformance:v1.28.0'',
                   BusyboxImage = ''registry.k8s.io/e2e-test-images/busybox:1.29-4'',
                   Kubeconfig = [], Parallel = 12, Verbosity = 4,
                   OutputDir = ''/home/u''\<rparr>"
  let ?c1 = "\<lparr>Focus = ''sig-apps'', Skip = [],
                   ConformanceImage = ''registry.k8s.io/conformance:v1.28.0'',
                   BusyboxImage = ''registry.k8s.io/e2e-test-images/busybox:1.29-4'',
                   Kubeconfig = [], Parallel = 1, Verbosity = 7,
                   OutputDir = ''/home/u''\<rparr>"
  have r1: "InitArgs example_env ?given = Return (Some ?c12) None" by (simp add: run_defs)
  have r2: "InitArgs example_env ?none = Return (Some ?c1) None" by (simp add: run_defs)
  have t1: "map_of (rev (tokens ?given)) ''parallel'' = Some ''12''"
    by (simp add: tokens.simps split_value_def Let_def)
  have t2: "map_of (rev (tokens ?none)) ''parallel'' = None"
    by (simp add: tokens.simps split_value_def Let_def)
  from InitArgs_parallel_default [OF r1] t1
  have "strconv_ParseInt example_env ''12'' = Inr 12" by simp
  moreover from InitArgs_parallel_default [OF r2] t2 have "Parallel ?c1 = 1" by simp
  ultimately show ?thesis using r1 r2 t1 t2 by simp
qed

section \<open>Facts on the file system\<close>

text \<open>Creating directories removes no file and changes no permission to search of a
  file that is there; when \<^verbatim>\<open>os.MkdirAll\<close> returns \<^verbatim>\<open>nil\<close>, every directory along the path
  is there.\<close>

lemma extends_refl: "extends fs fs"
  by (simp add: extends_def)

lemma extends_trans: "extends a b \<Longrightarrow> extends b c \<Longrightarrow> extends a c"
  unfolding extends_def by (intro conjI allI impI) (metis, metis, metis)

lemma extends_lookup: "extends fs fs' \<Longrightarrow> lookup fs p = Some n \<Longrightarrow> lookup fs' p = Some n"
  by (simp add: extends_def)

lemma extends_nosearch:
  "extends fs fs' \<Longrightarrow> lookup fs p = Some n \<Longrightarrow> nosearch fs' p = nosearch fs p"
  by (simp add: extends_def)

lemma extends_cwd: "extends fs fs' \<Longrightarrow> cwd fs' = cwd fs"
  by (simp add: extends_def)

lemma start_cwd: "cwd fs' = cwd fs \<Longrightarrow> start fs' name = start fs name"
  by (simp add: start_def)

lemma ensure_dir_extends: "extends fs (snd (ensure_dir fs d perm))"
proof (cases "lookup fs d")
  case (Some n)
  then show ?thesis by (cases n) (simp_all add: ensure_dir_def extends_refl)
next
  case None
  then have d: "d \<noteq> []" by (auto simp: lookup_def)
  show ?thesis
  proof (cases "lookup fs (butlast d) = Some Dir \<and> \<not> readonly fs (butlast d)")
    case False
    with None show ?thesis
      by (auto simp: ensure_dir_def extends_refl split: option.splits node.splits)
  next
    case True
    let ?fs' = "fs\<lparr>entries := fun_upd (entries fs) d (Some Dir),
                   nosearch := fun_upd (nosearch fs) d (\<not> owner_x perm),
                   readonly := fun_upd (readonly fs) d (\<not> owner_w perm)\<rparr>"
    from None True have eq: "snd (ensure_dir fs d perm) = ?fs'"
      by (simp add: ensure_dir_def)
    have "extends fs ?fs'"
      unfolding extends_def
    proof (intro conjI allI impI)
      show "cwd ?fs' = cwd fs" by simp
    next
      fix p n assume p: "lookup fs p = Some n"
      with None have "p \<noteq> d" by auto
      with p show "lookup ?fs' p = Some n" by (auto simp: lookup_def split: if_splits)
      from \<open>p \<noteq> d\<close> show "nosearch ?fs' p = nosearch fs p" by simp
    qed
    with eq show ?thesis by simp
  qed
qed

lemma ensure_dir_ok:
  "fst (ensure_dir fs d perm) = None \<Longrightarrow> lookup (snd (ensure_dir fs d perm)) d = Some Dir"
  by (auto simp: ensure_dir_def lookup_def split: option.splits node.splits if_splits)

lemma mkdir_all_extends: "extends fs (snd (mkdir_all fs d ss perm))"
proof (induction ss arbitrary: fs d)
  case Nil
  show ?case by (simp add: ensure_dir_extends)
next
  case (Cons s ss)
  let ?fs1 = "snd (ensure_dir fs d perm)"
  have e1: "extends fs ?fs1" by (rule ensure_dir_extends)
  show ?case
  proof (cases "fst (ensure_dir fs d perm)")
    case (Some e)
    with e1 show ?thesis by (simp add: Let_def)
  next
    case None
    show ?thesis
    proof (cases "nosearch ?fs1 d")
      case True
      with None e1 show ?thesis by (simp add: Let_def)
    next
      case False
      with None have "mkdir_all fs d (s # ss) perm = mkdir_all ?fs1 (step d s) ss perm"
        by (simp add: Let_def)
      moreover have "extends ?fs1 (snd (mkdir_all ?fs1 (step d s) ss perm))"
        by (rule Cons.IH)
      ultimately show ?thesis using e1 by (auto intro: extends_trans)
    qed
  qed
qed

lemma mkdir_all_ok:
  "fst (mkdir_all fs d ss perm) = None \<Longrightarrow> dirs_along (snd (mkdir_all fs d ss perm)) d ss"
proof (induction ss arbitrary: fs d)
  case Nil
  then show ?case by (simp add: ensure_dir_ok)
next
  case (Cons s ss)
  let ?fs1 = "snd (ensure_dir fs d perm)"
  let ?fs' = "snd (mkdir_all ?fs1 (step d s) ss perm)"
  from Cons.prems have ok1: "fst (ensure_dir fs d perm) = None"
    by (cases "fst (ensure_dir fs d perm)") (simp_all add: Let_def)
  with Cons.prems have search: "\<not> nosearch ?fs1 d"
    by (cases "nosearch ?fs1 d") (simp_all add: Let_def)
  from ok1 search have eq: "mkdir_all fs d (s # ss) perm = mkdir_all ?fs1 (step d s) ss perm"
    by (simp add: Let_def)
  with Cons.prems have "fst (mkdir_all ?fs1 (step d s) ss perm) = None" by simp
  then have along: "dirs_along ?fs' (step d s) ss" by (rule Cons.IH)
  have ext: "extends ?fs1 ?fs'" by (rule mkdir_all_extends)
  from ok1 have dir1: "lookup ?fs1 d = Some Dir" by (rule ensure_dir_ok)
  from ext dir1 have "lookup ?fs' d = Some Dir" by (rule extends_lookup)
  moreover from ext dir1 search have "\<not> nosearch ?fs' d" by (simp add: extends_nosearch)
  ultimately show ?case using along eq by simp
qed

lemma dirs_along_walk:
  "dirs_along fs d ss \<Longrightarrow> \<exists>q. walk fs d ss = Inr q \<and> lookup fs q = Some Dir"
  by (induction ss arbitrary: d) auto

lemma os_MkdirAll_extends: "extends fs (snd (os_MkdirAll fs name perm))"
  by (auto simp: os_MkdirAll_def Let_def extends_refl mkdir_all_extends split: option.splits)

lemma os_MkdirAll_ok:
  assumes "fst (os_MkdirAll fs name perm) = None"
  shows "os_Stat (snd (os_MkdirAll fs name perm)) name = Inr Dir"
    and "dirs_along (snd (os_MkdirAll fs name perm))
           (start (snd (os_MkdirAll fs name perm)) name) (segments name)"
proof -
  let ?m = "mkdir_all fs (start fs name) (segments name) perm"
  from assms have ne: "name \<noteq> []" by (auto simp: os_MkdirAll_def)
  with assms have ok: "fst ?m = None"
    by (auto simp: os_MkdirAll_def Let_def split: option.splits)
  with ne have eq: "snd (os_MkdirAll fs name perm) = snd ?m"
    by (simp add: os_MkdirAll_def Let_def)
  have "cwd (snd ?m) = cwd fs" using mkdir_all_extends by (rule extends_cwd)
  then have st: "start (snd ?m) name = start fs name" by (rule start_cwd)
  from ok have along: "dirs_along (snd ?m) (start fs name) (segments name)"
    by (rule mkdir_all_ok)
  with eq st show "dirs_along (snd (os_MkdirAll fs name perm))
           (start (snd (os_MkdirAll fs name perm)) name) (segments name)" by simp
  from along obtain q where "walk (snd ?m) (start fs name) (segments name) = Inr q"
    and "lookup (snd ?m) q = Some Dir"
    using dirs_along_walk by blast
  with ne eq st show "os_Stat (snd (os_MkdirAll fs name perm)) name = Inr Dir"
    by (simp add: os_Stat_def)
qed

lemmas fs_defs =
  os_Stat_def os_MkdirAll_def os_IsNotExist_def start_def segments_def step_def lookup_def
  ensure_dir_def owner_x_def owner_w_def example_fs_def Let_def

section \<open>Theorems on ValidateArgs\<close>

lemma ValidateArgs_success:
  assumes "ServerVersion (ClientSet client) = Inr v"
  shows "ValidateArgs err client config cfg fs =
           (if os_IsNotExist (case os_Stat fs (OutputDir cfg) of
                                Inl e \<Rightarrow> Some e | Inr info \<Rightarrow> None)
            then (case fst (os_MkdirAll fs (OutputDir cfg) 493) of
                    Some e \<Rightarrow>
                      Exited 1
                        (banner config v cfg @
                         [Fatalf ''Error creating output directory [%s] : %v''
                            [Str (OutputDir cfg), Err e]])
                        (snd (os_MkdirAll fs (OutputDir cfg) 493))
                  | None \<Rightarrow> Returned (banner config v cfg) (snd (os_MkdirAll fs (OutputDir cfg) 493)))
            else Returned (banner config v cfg) fs)"
  using assms
  by (simp add: ValidateArgs_def banner_def log_Printf_def log_Fatalf_def Let_def
           split: option.splits)

lemma skipping_banner:
  "filter skipping (banner config v cfg) =
     (if Skip cfg = [] then []
      else [Printf (''Skipping tests : '%s'' @ [CHR 0x27]) [Str (Skip cfg)]])"
  by (simp add: banner_def skipping_def)

lemma ValidateArgs_log:
  assumes "ServerVersion (ClientSet client) = Inr v"
  shows "log_of (ValidateArgs err client config cfg fs) = banner config v cfg \<or>
         (\<exists>e. log_of (ValidateArgs err client config cfg fs) =
                banner config v cfg @
                [Fatalf ''Error creating output directory [%s] : %v''
                   [Str (OutputDir cfg), Err e]])"
  by (simp add: ValidateArgs_success [OF assms] split: option.splits)

text \<open>
  Claim C4. For every configuration and every client whose query of the server's
  version fails, \<^verbatim>\<open>ValidateArgs\<close> logs the error and ends the process: the run does not
  return, its log is the failure message alone, and the file system is as before, so
  that no line follows the message and no directory is created.
\<close>

theorem ValidateArgs_version_failure:
  assumes "ServerVersion (ClientSet client) = Inl e"
  shows "ValidateArgs err client config cfg fs =
           Exited 1 [Fatal [Str ''Error fetching server version: '', Err e]] fs"
  using assms by (simp add: ValidateArgs_def log_Fatal_def)

theorem ValidateArgs_version_failure_witness:
  "ValidateArgs None \<lparr>ClientSet = \<lparr>ServerVersion = Inl (ErrorString ''connection refused'')\<rparr>\<rparr>
     example_config example_cfg example_fs =
     Exited 1 [Fatal [Str ''Error fetching server version: '',
                      Err (ErrorString ''connection refused'')]] example_fs"
  using ValidateArgs_version_failure
    [where client = "\<lparr>ClientSet = \<lparr>ServerVersion = Inl (ErrorString ''connection refused'')\<rparr>\<rparr>"
       and e = "ErrorString ''connection refused''" and err = None and config = example_config
       and cfg = example_cfg and fs = example_fs]
  by simp

text \<open>
  Claim C5, as the code has it. The claim that the line of skipped tests is emitted for
  every configuration whose skip expression is not empty fails for a run whose version
  query fails: the process ends at line 89, before the line is written.
\<close>

theorem ValidateArgs_skip_line_counterexample:
  "Skip (example_cfg\<lparr>Skip := ''Serial''\<rparr>) \<noteq> [] \<and>
   log_of (ValidateArgs None
             \<lparr>ClientSet = \<lparr>ServerVersion = Inl (ErrorString ''connection refused'')\<rparr>\<rparr>
             example_config (example_cfg\<lparr>Skip := ''Serial''\<rparr>) example_fs) =
     [Fatal [Str ''Error fetching server version: '', Err (ErrorString ''connection refused'')]] \<and>
   filter skipping
     (log_of (ValidateArgs None
                \<lparr>ClientSet = \<lparr>ServerVersion = Inl (ErrorString ''connection refused'')\<rparr>\<rparr>
                example_config (example_cfg\<lparr>Skip := ''Serial''\<rparr>) example_fs)) = []"
  by (simp add: ValidateArgs_def log_Fatal_def skipping_def)

text \<open>
  Claim C5, amended. For every configuration whose skip expression is empty, the log of
  \<^verbatim>\<open>ValidateArgs\<close> has no line of skipped tests. For every configuration whose skip
  expression is not empty, a run whose version query succeeds writes that line once,
  with the skip expression as its operand.
\<close>

theorem ValidateArgs_skip_line:
  "(Skip cfg = [] \<longrightarrow> filter skipping (log_of (ValidateArgs err client config cfg fs)) = []) \<and>
   (Skip cfg \<noteq> [] \<longrightarrow> ServerVersion (ClientSet client) = Inr v \<longrightarrow>
      filter skipping (log_of (ValidateArgs err client config cfg fs)) =
        [Printf (''Skipping tests : '%s'' @ [CHR 0x27]) [Str (Skip cfg)]])"
proof (intro conjI impI)
  assume empty: "Skip cfg = []"
  show "filter skipping (log_of (ValidateArgs err client config cfg fs)) = []"
  proof (cases "ServerVersion (ClientSet client)")
    case (Inl e)
    then show ?thesis by (simp add: ValidateArgs_def log_Fatal_def skipping_def)
  next
    case (Inr v')
    from ValidateArgs_log [OF this, of err config cfg fs] empty show ?thesis
      by (auto simp: skipping_banner skipping_def)
  qed
next
  assume "Skip cfg \<noteq> []" and "ServerVersion (ClientSet client) = Inr v"
  with ValidateArgs_log [of client v err config cfg fs]
  show "filter skipping (log_of (ValidateArgs err client config cfg fs)) =
          [Printf (''Skipping tests : '%s'' @ [CHR 0x27]) [Str (Skip cfg)]]"
    by (auto simp: skipping_banner skipping_def)
qed

theorem ValidateArgs_skip_line_witness:
  "filter skipping
     (log_of (ValidateArgs None example_client example_config example_cfg example_fs)) = [] \<and>
   filter skipping
     (log_of (ValidateArgs None example_client example_config
                (example_cfg\<lparr>Skip := ''Serial''\<rparr>) example_fs)) =
     [Printf (''Skipping tests : '%s'' @ [CHR 0x27]) [Str ''Serial'']]"
  using ValidateArgs_skip_line [where cfg = example_cfg and err = None
          and client = example_client and config = example_config and fs = example_fs]
        ValidateArgs_skip_line [where cfg = "example_cfg\<lparr>Skip := ''Serial''\<rparr>"
          and err = None and client = example_client and v = example_version
          and config = example_config and fs = example_fs]
  by (simp add: example_cfg_def example_client_def)

text \<open>
  Claim C6. After a successful version query: when \<^verbatim>\<open>os.Stat\<close> reports that the output
  directory does not exist, \<^verbatim>\<open>ValidateArgs\<close> calls \<^verbatim>\<open>os.MkdirAll\<close>; if that succeeds the run
  returns, the output directory is a directory, every directory along its path is
  there, and no file that was there is lost; if it fails, the failure is logged by
  \<^verbatim>\<open>log.Fatalf\<close> and the process ends with status 1. When the output directory exists,
  the run returns and the file system is as before.
\<close>

theorem ValidateArgs_output_dir:
  assumes "ServerVersion (ClientSet client) = Inr v"
  shows "(os_Stat fs (OutputDir cfg) = Inl e \<longrightarrow> os_IsNotExist (Some e) \<longrightarrow>
            fst (os_MkdirAll fs (OutputDir cfg) 493) = None \<longrightarrow>
            ValidateArgs err client config cfg fs =
              Returned (banner config v cfg) (snd (os_MkdirAll fs (OutputDir cfg) 493)) \<and>
            os_Stat (snd (os_MkdirAll fs (OutputDir cfg) 493)) (OutputDir cfg) = Inr Dir \<and>
            dirs_along (snd (os_MkdirAll fs (OutputDir cfg) 493))
              (start (snd (os_MkdirAll fs (OutputDir cfg) 493)) (OutputDir cfg))
              (segments (OutputDir cfg)) \<and>
            extends fs (snd (os_MkdirAll fs (OutputDir cfg) 493))) \<and>
         (os_Stat fs (OutputDir cfg) = Inr n \<longrightarrow>
            ValidateArgs err client config cfg fs = Returned (banner config v cfg) fs) \<and>
         (os_Stat fs (OutputDir cfg) = Inl e \<longrightarrow> os_IsNotExist (Some e) \<longrightarrow>
            fst (os_MkdirAll fs (OutputDir cfg) 493) = Some e' \<longrightarrow>
            ValidateArgs err client config cfg fs =
              Exited 1
                (banner config v cfg @
                 [Fatalf ''Error creating output directory [%s] : %v''
                    [Str (OutputDir cfg), Err e']])
                (snd (os_MkdirAll fs (OutputDir cfg) 493)))"
proof (intro conjI impI)
  assume st: "os_Stat fs (OutputDir cfg) = Inl e" and ne: "os_IsNotExist (Some e)"
     and ok: "fst (os_MkdirAll fs (OutputDir cfg) 493) = None"
  from st ne ok show "ValidateArgs err client config cfg fs =
      Returned (banner config v cfg) (snd (os_MkdirAll fs (OutputDir cfg) 493))"
    by (simp add: ValidateArgs_success [OF assms])
  from ok show "os_Stat (snd (os_MkdirAll fs (OutputDir cfg) 493)) (OutputDir cfg) = Inr Dir"
    by (rule os_MkdirAll_ok)
  from ok show "dirs_along (snd (os_MkdirAll fs (OutputDir cfg) 493))
              (start (snd (os_MkdirAll fs (OutputDir cfg) 493)) (OutputDir cfg))
              (segments (OutputDir cfg))"
    by (rule os_MkdirAll_ok)
  show "extends fs (snd (os_MkdirAll fs (OutputDir cfg) 493))"
    by (rule os_MkdirAll_extends)
next
  assume "os_Stat fs (OutputDir cfg) = Inr n"
  then show "ValidateArgs err client config cfg fs = Returned (banner config v cfg) fs"
    by (simp add: ValidateArgs_success [OF assms] os_IsNotExist_def)
next
  assume "os_Stat fs (OutputDir cfg) = Inl e" and "os_IsNotExist (Some e)"
     and "fst (os_MkdirAll fs (OutputDir cfg) 493) = Some e'"
  then show "ValidateArgs err client config cfg fs =
              Exited 1
                (banner config v cfg @
                 [Fatalf ''Error creating output directory [%s] : %v''
                    [Str (OutputDir cfg), Err e']])
                (snd (os_MkdirAll fs (OutputDir cfg) 493))"
    by (simp add: ValidateArgs_success [OF assms])
qed

theorem ValidateArgs_output_dir_witness:
  "os_Stat example_fs ''out/logs'' = Inl (PathError ''stat'' ''out/logs'' ENOENT) \<and>
   os_Stat (files_of (ValidateArgs None example_client example_config
                        (example_cfg\<lparr>OutputDir := ''out/logs''\<rparr>) example_fs)) ''out/logs'' =
     Inr Dir \<and>
   os_Stat (files_of (ValidateArgs None example_client example_config
                        (example_cfg\<lparr>OutputDir := ''out/logs''\<rparr>) example_fs)) ''out'' =
     Inr Dir \<and>
   ValidateArgs None example_client example_config example_cfg example_fs =
     Returned (banner example_config example_version example_cfg) example_fs \<and>
   ValidateArgs None example_client example_config
     (example_cfg\<lparr>OutputDir := ''/srv/logs''\<rparr>) example_fs =
     Exited 1
       (banner example_config example_version (example_cfg\<lparr>OutputDir := ''/srv/logs''\<rparr>) @
        [Fatalf ''Error creating output directory [%s] : %v''
           [Str ''/srv/logs'', Err (PathError ''mkdir'' ''/srv/logs'' EACCES)]])
       example_fs"
proof -
  let ?new = "example_cfg\<lparr>OutputDir := ''out/logs''\<rparr>"
  let ?ro = "example_cfg\<lparr>OutputDir := ''/srv/logs''\<rparr>"
  have sv: "ServerVersion (ClientSet example_client) = Inr example_version"
    by (simp add: example_client_def)
  have s1: "os_Stat example_fs (OutputDir ?new) = Inl (PathError ''stat'' ''out/logs'' ENOENT)"
    by (simp add: fs_defs)
  have n1: "os_IsNotExist (Some (PathError ''stat'' ''out/logs'' ENOENT))"
    by (simp add: os_IsNotExist_def)
  have m1: "fst (os_MkdirAll example_fs (OutputDir ?new) 493) = None"
    by (simp add: fs_defs)
  have s2: "os_Stat example_fs (OutputDir example_cfg) = Inr Dir"
    by (simp add: example_cfg_def fs_defs)
  have s3: "os_Stat example_fs (OutputDir ?ro) = Inl (PathError ''stat'' ''/srv/logs'' ENOENT)"
    by (simp add: fs_defs)
  have n3: "os_IsNotExist (Some (PathError ''stat'' ''/srv/logs'' ENOENT))"
    by (simp add: os_IsNotExist_def)
  have m3: "fst (os_MkdirAll example_fs (OutputDir ?ro) 493) =
              Some (PathError ''mkdir'' ''/srv/logs'' EACCES)"
    by (simp add: fs_defs)
  have f3: "snd (os_MkdirAll example_fs (OutputDir ?ro) 493) = example_fs"
    by (simp add: fs_defs)
  note a = ValidateArgs_output_dir [OF sv, where fs = example_fs and cfg = ?new
             and err = None and config = example_config and n = Dir
             and e = "PathError ''stat'' ''out/logs'' ENOENT"
             and e' = "PathError ''mkdir'' ''out/logs'' ENOENT"]
  note b = ValidateArgs_output_dir [OF sv, where fs = example_fs and cfg = example_cfg
             and err = None and config = example_config and n = Dir
             and e = "PathError ''stat'' ''/home/u'' ENOENT"
             and e' = "PathError ''mkdir'' ''/home/u'' ENOENT"]
  note c = ValidateArgs_output_dir [OF sv, where fs = example_fs and cfg = ?ro
             and err = None and config = example_config and n = Dir
             and e = "PathError ''stat'' ''/srv/logs'' ENOENT"
             and e' = "PathError ''mkdir'' ''/srv/logs'' EACCES"]
  from a s1 n1 m1 have
    r1: "ValidateArgs None example_client example_config ?new example_fs =
           Returned (banner example_config example_version ?new)
             (snd (os_MkdirAll example_fs (OutputDir ?new) 493))"
    and d1: "os_Stat (snd (os_MkdirAll example_fs (OutputDir ?new) 493)) (OutputDir ?new) = Inr Dir"
    by blast+
  have p1: "os_Stat (snd (os_MkdirAll example_fs (OutputDir ?new) 493)) ''out'' = Inr Dir"
    by (simp add: fs_defs)
  from b s2 have
    r2: "ValidateArgs None example_client example_config example_cfg example_fs =
           Returned (banner example_config example_version example_cfg) example_fs"
    by blast
  from c s3 n3 m3 have
    r3: "ValidateArgs None example_client example_config ?ro example_fs =
           Exited 1
             (banner example_config example_version ?ro @
              [Fatalf ''Error creating output directory [%s] : %v''
                 [Str (OutputDir ?ro), Err (PathError ''mkdir'' ''/srv/logs'' EACCES)]])
             (snd (os_MkdirAll example_fs (OutputDir ?ro) 493))"
    by blast
  from s1 r1 d1 p1 r2 r3 f3 show ?thesis by simp
qed

text \<open>
  Claim C7. When the version query succeeds, the log of \<^verbatim>\<open>ValidateArgs\<close> is the list of
  the informational lines in their order: API endpoint, server version, focus, skip
  (only when not empty), conformance image, busybox image, and the line with
  parallelism and verbosity; nothing follows them but, when the output directory cannot
  be created, the message of that failure.
\<close>

theorem ValidateArgs_log_order:
  assumes "ServerVersion (ClientSet client) = Inr v"
  shows "log_of (ValidateArgs err client config cfg fs) = banner config v cfg \<or>
         (\<exists>e. ValidateArgs err client config cfg fs =
                Exited 1
                  (banner config v cfg @
                   [Fatalf ''Error creating output directory [%s] : %v''
                      [Str (OutputDir cfg), Err e]])
                  (snd (os_MkdirAll fs (OutputDir cfg) 493)))"
  by (simp add: ValidateArgs_success [OF assms] split: option.splits)

theorem ValidateArgs_log_order_witness:
  "log_of (ValidateArgs None example_client example_config
             (example_cfg\<lparr>Skip := ''Serial''\<rparr>) example_fs) =
     [Printf ''API endpoint : %s'' [Str ''https://127.0.0.1:6443''],
      Printf ''Server version : %#v'' [Ver example_version],
      Printf (''Running tests : '%s'' @ [CHR 0x27]) [Str ''[Conformance]''],
      Printf (''Skipping tests : '%s'' @ [CHR 0x27]) [Str ''Serial''],
      Printf (''Using conformance image : '%s'' @ [CHR 0x27])
        [Str ''registry.k8s.io/conformance:v1.28.0''],
      Printf (''Using busybox image : '%s'' @ [CHR 0x27])
        [Str ''registry.k8s.io/e2e-test-images/busybox:1.29-4''],
      Printf (''Test framework will start '%d' threads and use verbosity '%d'' @ [CHR 0x27])
        [Num 1, Num 4]]"
proof -
  let ?cfg = "example_cfg\<lparr>Skip := ''Serial''\<rparr>"
  let ?run = "ValidateArgs None example_client example_config ?cfg example_fs"
  have sv: "ServerVersion (ClientSet example_client) = Inr example_version"
    by (simp add: example_client_def)
  have "os_Stat example_fs (OutputDir ?cfg) = Inr Dir"
    by (simp add: example_cfg_def fs_defs)
  then have "\<exists>out. ?run = Returned out example_fs"
    by (simp add: ValidateArgs_def example_client_def os_IsNotExist_def Let_def)
  with ValidateArgs_log_order [OF sv, where err = None and config = example_config
         and cfg = ?cfg and fs = example_fs]
  have "log_of ?run = banner example_config example_version ?cfg" by auto
  then show ?thesis by (simp add: banner_def example_cfg_def example_config_def)
qed

text \<open>
  Claim C9. \<^verbatim>\<open>ValidateArgs\<close> does not depend on the error passed as its first parameter:
  two runs that differ in that argument only have the same log, the same file system
  and the same way of ending.
\<close>

theorem ValidateArgs_ignores_err:
  "ValidateArgs err client config cfg fs = ValidateArgs err' client config cfg fs"
  by (simp add: ValidateArgs_def)

text \<open>
  Claim C10. When \<^verbatim>\<open>os.Stat\<close> on the output directory fails with an error that does not
  report a missing file, \<^verbatim>\<open>ValidateArgs\<close> neither creates the directory nor reports a
  failure: after a successful version query it returns with the informational lines
  only and the file system as before.
\<close>

theorem ValidateArgs_stat_other_error:
  assumes "ServerVersion (ClientSet client) = Inr v"
      and "os_Stat fs (OutputDir cfg) = Inl e"
      and "\<not> os_IsNotExist (Some e)"
    shows "ValidateArgs err client config cfg fs = Returned (banner config v cfg) fs"
  using assms(2,3) by (simp add: ValidateArgs_success [OF assms(1)])

theorem ValidateArgs_stat_other_error_witness:
  "os_Stat example_fs ''notes/logs'' = Inl (PathError ''stat'' ''notes/logs'' ENOTDIR) \<and>
   ValidateArgs None example_client example_config
     (example_cfg\<lparr>OutputDir := ''notes/logs''\<rparr>) example_fs =
     Returned (banner example_config example_version (example_cfg\<lparr>OutputDir := ''notes/logs''\<rparr>))
       example_fs \<and>
   os_Stat example_fs ''/priv/logs'' = Inl (PathError ''stat'' ''/priv/logs'' EACCES) \<and>
   ValidateArgs None example_client example_config
     (example_cfg\<lparr>OutputDir := ''/priv/logs''\<rparr>) example_fs =
     Returned (banner example_config example_version (example_cfg\<lparr>OutputDir := ''/priv/logs''\<rparr>))
       example_fs"
proof -
  have sv: "ServerVersion (ClientSet example_client) = Inr example_version"
    by (simp add: example_client_def)
  have s1: "os_Stat example_fs (OutputDir (example_cfg\<lparr>OutputDir := ''notes/logs''\<rparr>)) =
              Inl (PathError ''stat'' ''notes/logs'' ENOTDIR)"
    by (simp add: fs_defs)
  have s2: "os_Stat example_fs (OutputDir (example_cfg\<lparr>OutputDir := ''/priv/logs''\<rparr>)) =
              Inl (PathError ''stat'' ''/priv/logs'' EACCES)"
    by (simp add: fs_defs)
  have n1: "\<not> os_IsNotExist (Some (PathError ''stat'' ''notes/logs'' ENOTDIR))"
    by (simp add: os_IsNotExist_def)
  have n2: "\<not> os_IsNotExist (Some (PathError ''stat'' ''/priv/logs'' EACCES))"
    by (simp add: os_IsNotExist_def)
  from ValidateArgs_stat_other_error [OF sv s1 n1] ValidateArgs_stat_other_error [OF sv s2 n2]
       s1 s2
  show ?thesis by simp
qed

end
